theory Spec2Isabelle
  imports Main
begin

unbundle bit_operations_syntax

text \<open>
  The herb provenance API: the batch routes (recording a stage event, reading a batch's
  stages back against the ledger), the ledger client's batch summary and the lab report
  analysis route. The store, the contract and the generative model are outside the
  program; each handler takes their answers as arguments and returns, in order, what it
  does: the calls it makes, what it logs and the response it sends.
\<close>

section \<open>JavaScript values\<close>

text \<open>
  A JavaScript string is a list of UTF-16 code units, each below 65536; \<open>ascii\<close> turns
  a string of this theory into one.
\<close>

type_synonym jsstring = "nat list"

definition ascii :: "string \<Rightarrow> jsstring" where
  "ascii s = map of_char s"

text \<open>
  A finite Number is held by the shortest decimal that reads back as the same double:
  \<open>Num c e\<close> is \<open>c\<close> times ten to the \<open>e\<close>, so twelve is \<open>Num 12 0\<close>, twelve and a
  half \<open>Num 125 (- 1)\<close> and ten to the twenty-one \<open>Num 1 21\<close>. The two zeros are one
  value here; nothing in the program tells them apart. A pair that is the shortest
  decimal of no double stands for no Number: what holds for every pair holds for the
  Numbers among them.
\<close>

datatype number = Num int int | Infinity | MinusInfinity | NaN

text \<open>
  A request body and a stored \<open>event_data\<close> column hold JSON, as \<open>JSON.parse\<close>
  leaves it. An object is the list of its own properties in the engine's enumeration
  order: the keys that are array indices first, in ascending order, then the others in
  the order of the text. A number literal beyond the doubles is an infinity. A field
  that is absent from a body is \<open>undefined\<close>: \<open>None\<close> of an option type.
\<close>

datatype json =
    JNull
  | JBool bool
  | JNum number
  | JStr jsstring
  | JArr "json list"
  | JObj "(jsstring \<times> json) list"

text \<open>Errors that the handlers can meet, as values.\<close>

datatype js_error =
    ERR_INVALID_ARG_TYPE
  | ERR_HTTP_HEADERS_SENT
  | TypeError
  | SyntaxError
  | AdapterError string

text \<open>JavaScript truthiness, as \<open>!x\<close> and \<open>x || y\<close> read it.\<close>

fun truthy_number :: "number \<Rightarrow> bool" where
  "truthy_number (Num c e) = (c \<noteq> 0)"
| "truthy_number NaN = False"
| "truthy_number x = True"

fun truthy :: "json \<Rightarrow> bool" where
  "truthy JNull = False"
| "truthy (JBool b) = b"
| "truthy (JNum x) = truthy_number x"
| "truthy (JStr s) = (s \<noteq> [])"
| "truthy (JArr xs) = True"
| "truthy (JObj kvs) = True"

definition truthy_string :: "string option \<Rightarrow> bool" where
  "truthy_string s = (case s of None \<Rightarrow> False | Some t \<Rightarrow> t \<noteq> [])"

section \<open>Numbers as text\<close>

definition digit_char :: "nat \<Rightarrow> char" where
  "digit_char d = ''0123456789abcdef'' ! d"

fun dec_nat :: "nat \<Rightarrow> string" where
  "dec_nat n = (if n < 10 then [digit_char n] else dec_nat (n div 10) @ [digit_char (n mod 10)])"

declare dec_nat.simps [simp del]

text \<open>\<open>BigInt.prototype.toString\<close>: every digit.\<close>

definition dec_int :: "int \<Rightarrow> string" where
  "dec_int i = (if i < 0 then CHR ''-'' # dec_nat (nat (- i)) else dec_nat (nat i))"

text \<open>
  \<open>Number::toString\<close> of ECMAScript for radix ten. \<open>ds\<close> are the digits of the
  shortest decimal, without zeros at their end, and \<open>n\<close> says where the decimal point
  stands: behind the first \<open>n\<close> of them. An integer of up to twenty-one digits is
  written out, a fraction is written with a point when its first digit stands at most
  six places behind the point; anything else gets an exponent.
\<close>

function strip_zeros :: "nat \<Rightarrow> int \<Rightarrow> nat \<times> int" where
  "strip_zeros s e = (if s \<noteq> 0 \<and> s mod 10 = 0 then strip_zeros (s div 10) (e + 1) else (s, e))"
  by pat_completeness auto
termination
  by (relation "measure fst") auto

declare strip_zeros.simps [simp del]

definition exponent_part :: "int \<Rightarrow> string" where
  "exponent_part x = CHR ''e'' # (if x < 0 then CHR ''-'' else CHR ''+'') # dec_nat (nat \<bar>x\<bar>)"

definition digits_toString :: "string \<Rightarrow> int \<Rightarrow> string" where
  "digits_toString ds n =
     (let k = int (length ds) in
      if k \<le> n \<and> n \<le> 21 then ds @ replicate (nat (n - k)) CHR ''0''
      else if 0 < n \<and> n \<le> 21 then take (nat n) ds @ CHR ''.'' # drop (nat n) ds
      else if - 6 < n \<and> n \<le> 0 then CHR ''0'' # CHR ''.'' # replicate (nat (- n)) CHR ''0'' @ ds
      else if k = 1 then ds @ exponent_part (n - 1)
      else take 1 ds @ CHR ''.'' # drop 1 ds @ exponent_part (n - 1))"

fun Number_toString :: "number \<Rightarrow> string" where
  "Number_toString (Num c e) =
     (if c = 0 then ''0''
      else
        let (s, e') = strip_zeros (nat \<bar>c\<bar>) e;
            ds = dec_nat s;
            body = digits_toString ds (int (length ds) + e')
        in if c < 0 then CHR ''-'' # body else body)"
| "Number_toString Infinity = ''Infinity''"
| "Number_toString MinusInfinity = ''-Infinity''"
| "Number_toString NaN = ''NaN''"

section \<open>JSON.stringify\<close>

definition is_high :: "nat \<Rightarrow> bool" where
  "is_high u = (55296 \<le> u \<and> u \<le> 56319)"

definition is_low :: "nat \<Rightarrow> bool" where
  "is_low u = (56320 \<le> u \<and> u \<le> 57343)"

text \<open>\<open>UnicodeEscape\<close>: a backslash, \<open>u\<close> and four lower-case hexadecimal digits.\<close>

definition unicode_escape :: "nat \<Rightarrow> jsstring" where
  "unicode_escape u =
     92 # 117 # map (\<lambda>i. of_char (digit_char ((u div 16 ^ i) mod 16))) [3, 2, 1, 0]"

text \<open>
  \<open>QuoteJSONString\<close>: the quote and the backslash are escaped, a control character has
  its short form or its Unicode escape, a surrogate without its partner has its Unicode
  escape, every other code point is copied.
\<close>

definition escape_unit :: "nat \<Rightarrow> jsstring" where
  "escape_unit u =
     (if u = 8 then ascii [CHR 0x5C, CHR ''b'']
      else if u = 9 then ascii [CHR 0x5C, CHR ''t'']
      else if u = 10 then ascii [CHR 0x5C, CHR ''n'']
      else if u = 12 then ascii [CHR 0x5C, CHR ''f'']
      else if u = 13 then ascii [CHR 0x5C, CHR ''r'']
      else if u = 34 then ascii [CHR 0x5C, CHR 0x22]
      else if u = 92 then ascii [CHR 0x5C, CHR 0x5C]
      else if u < 32 \<or> is_high u \<or> is_low u then unicode_escape u
      else [u])"

fun quote_units :: "jsstring \<Rightarrow> jsstring" where
  "quote_units [] = []"
| "quote_units [u] = escape_unit u"
| "quote_units (u # v # vs) =
     (if is_high u \<and> is_low v then u # v # quote_units vs
      else escape_unit u @ quote_units (v # vs))"

definition quote :: "jsstring \<Rightarrow> jsstring" where
  "quote s = 34 # quote_units s @ [34]"

fun join_comma :: "jsstring list \<Rightarrow> jsstring" where
  "join_comma [] = []"
| "join_comma [x] = x"
| "join_comma (x # y # ys) = x @ 44 # join_comma (y # ys)"

fun number_text :: "number \<Rightarrow> jsstring" where
  "number_text (Num c e) = ascii (Number_toString (Num c e))"
| "number_text x = ascii ''null''"

fun JSON_stringify :: "json \<Rightarrow> jsstring" where
  "JSON_stringify JNull = ascii ''null''"
| "JSON_stringify (JBool b) = (if b then ascii ''true'' else ascii ''false'')"
| "JSON_stringify (JNum x) = number_text x"
| "JSON_stringify (JStr s) = quote s"
| "JSON_stringify (JArr xs) = 91 # join_comma (map JSON_stringify xs) @ [93]"
| "JSON_stringify (JObj kvs) =
     123 # join_comma (map (\<lambda>(k, v). quote k @ 58 # JSON_stringify v) kvs) @ [125]"

section \<open>UTF-8\<close>

text \<open>
  \<open>hash.update\<close> of a string hashes its UTF-8 bytes: a surrogate pair is one code
  point of four bytes, a surrogate without its partner is replaced by U+FFFD.
\<close>

definition utf8_unit :: "nat \<Rightarrow> nat list" where
  "utf8_unit u =
     (if u < 128 then [u]
      else if u < 2048 then [192 + u div 64, 128 + u mod 64]
      else if is_high u \<or> is_low u then [239, 191, 189]
      else [224 + u div 4096, 128 + (u div 64) mod 64, 128 + u mod 64])"

definition utf8_pair :: "nat \<Rightarrow> nat \<Rightarrow> nat list" where
  "utf8_pair u v =
     (let cp = 65536 + (u - 55296) * 1024 + (v - 56320) in
      [240 + cp div 262144, 128 + (cp div 4096) mod 64, 128 + (cp div 64) mod 64,
       128 + cp mod 64])"

fun utf8 :: "jsstring \<Rightarrow> nat list" where
  "utf8 [] = []"
| "utf8 [u] = utf8_unit u"
| "utf8 (u # v # vs) =
     (if is_high u \<and> is_low v then utf8_pair u v @ utf8 vs
      else utf8_unit u @ utf8 (v # vs))"

section \<open>SHA-256\<close>

text \<open>
  \<open>crypto.createHash('sha256')\<close> is the hash of FIPS 180-4 and \<open>digest('hex')\<close> its
  lower-case hexadecimal text. A 32-bit word is a natural number below \<open>2^32\<close>, with
  the wrap-around of the additions written out; a message is a list of bytes.
\<close>

type_synonym w32 = nat

definition add32 :: "w32 \<Rightarrow> w32 \<Rightarrow> w32" where
  "add32 x y = (x + y) mod 4294967296"

definition rotr :: "nat \<Rightarrow> w32 \<Rightarrow> w32" where
  "rotr n x = (x div 2 ^ n) OR ((x * 2 ^ (32 - n)) mod 4294967296)"

definition Ch :: "w32 \<Rightarrow> w32 \<Rightarrow> w32 \<Rightarrow> w32" where
  "Ch x y z = (x AND y) XOR ((x XOR 4294967295) AND z)"

definition Maj :: "w32 \<Rightarrow> w32 \<Rightarrow> w32 \<Rightarrow> w32" where
  "Maj x y z = (x AND y) XOR (x AND z) XOR (y AND z)"

definition bsig0 :: "w32 \<Rightarrow> w32" where
  "bsig0 x = rotr 2 x XOR rotr 13 x XOR rotr 22 x"

definition bsig1 :: "w32 \<Rightarrow> w32" where
  "bsig1 x = rotr 6 x XOR rotr 11 x XOR rotr 25 x"

definition ssig0 :: "w32 \<Rightarrow> w32" where
  "ssig0 x = rotr 7 x XOR rotr 18 x XOR (x div 2 ^ 3)"

definition ssig1 :: "w32 \<Rightarrow> w32" where
  "ssig1 x = rotr 17 x XOR rotr 19 x XOR (x div 2 ^ 10)"

text \<open>
  The round constants (from the cube roots of the first sixty-four primes) and the
  initial hash value (from the square roots of the first eight), in decimal.
\<close>

definition K256 :: "w32 list" where
  "K256 =
     [1116352408, 1899447441, 3049323471, 3921009573, 961987163, 1508970993,
      2453635748, 2870763221, 3624381080, 310598401, 607225278, 1426881987,
      1925078388, 2162078206, 2614888103, 3248222580, 3835390401, 4022224774,
      264347078, 604807628, 770255983, 1249150122, 1555081692, 1996064986,
      2554220882, 2821834349, 2952996808, 3210313671, 3336571891, 3584528711,
      113926993, 338241895, 666307205, 773529912, 1294757372, 1396182291,
      1695183700, 1986661051, 2177026350, 2456956037, 2730485921, 2820302411,
      3259730800, 3345764771, 3516065817, 3600352804, 4094571909, 275423344,
      430227734, 506948616, 659060556, 883997877, 958139571, 1322822218,
      1537002063, 1747873779, 1955562222, 2024104815, 2227730452, 2361852424,
      2428436474, 2756734187, 3204031479, 3329325298]"

definition H256 :: "w32 list" where
  "H256 =
     [1779033703, 3144134277, 1013904242, 2773480762,
      1359893119, 2600822924, 528734635, 1541459225]"

definition sched_step :: "w32 list \<Rightarrow> nat \<Rightarrow> w32 list" where
  "sched_step ws t =
     ws @ [add32 (add32 (add32 (ssig1 (ws ! (t - 2))) (ws ! (t - 7))) (ssig0 (ws ! (t - 15))))
                 (ws ! (t - 16))]"

definition sched :: "w32 list \<Rightarrow> w32 list" where
  "sched ws = foldl sched_step ws [16..<64]"

fun round256 :: "w32 list \<Rightarrow> w32 \<times> w32 \<Rightarrow> w32 list" where
  "round256 [a, b, c, d, e, f, g, h] (k, w) =
     (let t1 = add32 (add32 (add32 (add32 h (bsig1 e)) (Ch e f g)) k) w;
          t2 = add32 (bsig0 a) (Maj a b c)
      in [add32 t1 t2, a, b, c, add32 d t1, e, f, g])"
| "round256 s _ = s"

fun be32 :: "nat list \<Rightarrow> w32 list" where
  "be32 (a # b # c # d # r) = (((a * 256 + b) * 256 + c) * 256 + d) # be32 r"
| "be32 _ = []"

definition compress :: "w32 list \<Rightarrow> nat list \<Rightarrow> w32 list" where
  "compress hs block = map2 add32 hs (foldl round256 hs (zip K256 (sched (be32 block))))"

definition be_bytes8 :: "nat \<Rightarrow> nat list" where
  "be_bytes8 n = map (\<lambda>k. (n div 256 ^ k) mod 256) [7, 6, 5, 4, 3, 2, 1, 0]"

definition pad :: "nat list \<Rightarrow> nat list" where
  "pad m = m @ [128] @ replicate ((119 - length m mod 64) mod 64) 0 @ be_bytes8 (8 * length m)"

function blocks :: "nat list \<Rightarrow> nat list list" where
  "blocks m = (if length m < 64 then [] else take 64 m # blocks (drop 64 m))"
  by pat_completeness auto
termination
  by (relation "measure length") auto

declare blocks.simps [simp del]

definition hex32 :: "w32 \<Rightarrow> string" where
  "hex32 w = map (\<lambda>i. digit_char ((w div 16 ^ i) mod 16)) [7, 6, 5, 4, 3, 2, 1, 0]"

definition sha256_hex :: "nat list \<Rightarrow> string" where
  "sha256_hex bytes = concat (map hex32 (foldl compress H256 (blocks (pad bytes))))"

section \<open>The hash utility\<close>

text \<open>
  \<open>createBatchHash\<close> of the batch routes. \<open>JSON.stringify(undefined)\<close> is
  \<open>undefined\<close>, and \<open>hash.update\<close> throws on anything but a string or a buffer.
\<close>

definition createBatchHash :: "json option \<Rightarrow> js_error + string" where
  "createBatchHash metadata =
     (case metadata of
        None \<Rightarrow> Inl ERR_INVALID_ARG_TYPE
      | Some m \<Rightarrow> Inr (sha256_hex (utf8 (JSON_stringify m))))"

section \<open>The ledger client\<close>

text \<open>
  Values that cross the ledger client. The contract's interface description is not part
  of the sources, so an integer of the contract is taken as the decoder hands it over: a
  \<open>JsBigInt\<close>, or a \<open>JsNumber\<close>.
\<close>

datatype jsval =
    JsNumber number
  | JsBigInt int
  | JsString jsstring

fun toString :: "jsval \<Rightarrow> jsstring" where
  "toString (JsNumber x) = ascii (Number_toString x)"
| "toString (JsBigInt n) = ascii (dec_int n)"
| "toString (JsString s) = s"

fun is_string :: "jsval \<Rightarrow> bool" where
  "is_string (JsString s) = True"
| "is_string v = False"

fun is_bigint :: "jsval \<Rightarrow> bool" where
  "is_bigint (JsBigInt n) = True"
| "is_bigint v = False"

text \<open>The struct tuple \<open>[sku, stageCount, stages[]]\<close> that the contract call returns.\<close>

record contract_stage =
  c_stageType :: jsval
  c_timestamp :: jsval
  c_metadataHash :: string

record contract_summary =
  c_sku :: string
  c_stageCount :: jsval
  c_stages :: "contract_stage list"

text \<open>What \<open>getBatchSummary\<close> hands to its caller.\<close>

record ledger_stage =
  stageType :: jsval
  timestamp :: jsval
  metadataHash :: string

record batch_summary =
  sku :: string
  stageCount :: jsval
  stages :: "ledger_stage list"

definition map_stage :: "contract_stage \<Rightarrow> ledger_stage" where
  "map_stage stage =
     \<lparr>stageType = c_stageType stage,
      timestamp = JsString (toString (c_timestamp stage)),
      metadataHash = c_metadataHash stage\<rparr>"

text \<open>
  \<open>getBatchSummary\<close>: the argument is the outcome of the awaited contract call, an
  error when the call rejects.
\<close>

definition getBatchSummary :: "js_error + contract_summary \<Rightarrow> js_error + batch_summary" where
  "getBatchSummary call =
     (case call of
        Inl e \<Rightarrow> Inl e
      | Inr result \<Rightarrow>
          Inr \<lparr>sku = c_sku result,
               stageCount = JsString (toString (c_stageCount result)),
               stages = map map_stage (c_stages result)\<rparr>)"

section \<open>The batch routes\<close>

text \<open>
  \<open>event_stages\<close> is an object literal, so a lookup that misses its own keys goes on
  to \<open>Object.prototype\<close>.
\<close>

datatype propval =
    PNumber nat
  | PFunction
  | PObject
  | PUndefined

definition event_stages :: "(string \<times> nat) list" where
  "event_stages = [(''CollectionEvent'', 0), (''QualityTest'', 1), (''ProcessingStep'', 2)]"

definition Object_prototype_methods :: "string list" where
  "Object_prototype_methods =
     [''constructor'', ''__defineGetter__'', ''__defineSetter__'', ''hasOwnProperty'',
      ''__lookupGetter__'', ''__lookupSetter__'', ''isPrototypeOf'', ''propertyIsEnumerable'',
      ''toString'', ''valueOf'', ''toLocaleString'']"

definition event_stages_get :: "string \<Rightarrow> propval" where
  "event_stages_get key =
     (case map_of event_stages key of
        Some n \<Rightarrow> PNumber n
      | None \<Rightarrow>
          if key = ''__proto__'' then PObject
          else if key \<in> set Object_prototype_methods then PFunction
          else PUndefined)"

text \<open>The property key of \<open>event_stages[stage_type]\<close>; a missing field reads \<open>undefined\<close>.\<close>

definition to_property_key :: "string option \<Rightarrow> string" where
  "to_property_key v = (case v of None \<Rightarrow> ''undefined'' | Some s \<Rightarrow> s)"

text \<open>
  A row of the \<open>stage_events\<close> table as the store returns it; a column that is
  \<open>null\<close> is \<open>None\<close>.
\<close>

record stage_event =
  batch_id :: string
  event_type :: "jsval option"
  event_data :: json
  event_hash :: string
  created_at :: string

text \<open>The row that \<open>add-stage-event\<close> hands to the store's insert.\<close>

record new_stage_event =
  new_batch_id :: string
  new_event_type :: propval
  new_event_data :: json
  new_event_hash :: string

text \<open>The entry of the response's stage list; \<open>stage_timestamp\<close> is its \<open>timestamp\<close>.\<close>

record stage_detail =
  stage_type :: "jsval option"
  metadata :: json
  stage_timestamp :: string
  data_integrity :: bool
  on_chain_verified :: bool
  verified :: bool
  on_chain_data :: "ledger_stage option"

datatype verification_status = FULLY_VERIFIED | PARTIALLY_VERIFIED | NOT_VERIFIED

record summary =
  total_stages :: nat
  verified_stages :: nat
  verification_status :: verification_status

text \<open>The JSON bodies that the routes send.\<close>

datatype body =
    ErrorText string
  | ErrorMessage js_error
  | ErrorDetails js_error string
  | StageRecorded string "stage_event option" string
  | BatchStages string string "stage_detail list" summary
  | Rating "json option"

text \<open>
  What a handler does, in order. \<open>Respond\<close> is \<open>res.status(code).json(body)\<close>
  reaching the client; \<open>Unhandled\<close> is an error that leaves the handler.
\<close>

datatype effect =
    StoreInsert new_stage_event
  | LedgerAddStage string propval string
  | ConsoleLog string "string option"
  | ConsoleError js_error
  | Respond nat body
  | Unhandled js_error

fun is_Respond :: "effect \<Rightarrow> bool" where
  "is_Respond (Respond code b) = True"
| "is_Respond _ = False"

definition response_of :: "effect list \<Rightarrow> effect option" where
  "response_of trace = find is_Respond trace"

text \<open>
  \<open>res.status(code).json(body)\<close>: once a response has been sent, setting a header
  throws.
\<close>

definition res_json :: "bool \<Rightarrow> nat \<Rightarrow> body \<Rightarrow> effect list" where
  "res_json headersSent code b =
     (if headersSent then [Unhandled ERR_HTTP_HEADERS_SENT] else [Respond code b])"

text \<open>
  The body of \<open>POST /add-stage-event\<close>. The two identifying fields are strings, as the
  route documents them; the metadata is any JSON value.
\<close>

record add_stage_body =
  req_formatted_batch_id :: "string option"
  req_stage_type :: "string option"
  req_metadata :: "json option"

record tx_result =
  txHash :: string
  stageIndex :: "string option"

text \<open>The string in a field that has passed the truthiness check.\<close>

definition field_value :: "string option \<Rightarrow> string" where
  "field_value v = (case v of None \<Rightarrow> [] | Some s \<Rightarrow> s)"

text \<open>\<open>metadata || {}\<close>\<close>

definition or_empty_object :: "json option \<Rightarrow> json" where
  "or_empty_object m = (case m of None \<Rightarrow> JObj [] | Some v \<Rightarrow> if truthy v then v else JObj [])"

definition first_row :: "stage_event list \<Rightarrow> stage_event option" where
  "first_row data = (case data of [] \<Rightarrow> None | x # _ \<Rightarrow> Some x)"

text \<open>
  \<open>POST /add-stage-event\<close>. \<open>inserted\<close> is the store's answer to the insert and
  \<open>mirror\<close> the outcome of \<open>addStage\<close>; each is read only when the call is made.
\<close>

definition add_stage_event ::
  "add_stage_body \<Rightarrow> js_error + stage_event list \<Rightarrow> js_error + tx_result \<Rightarrow> effect list" where
  "add_stage_event req inserted mirror =
     (let stage = event_stages_get (to_property_key (req_stage_type req)) in
      if stage = PUndefined then res_json False 400 (ErrorText ''Invalid stage type'')
      else if \<not> truthy_string (req_formatted_batch_id req) \<or> req_stage_type req = None
        then res_json False 400 (ErrorText ''batch_id and stage_type are required'')
      else
        let batchId = field_value (req_formatted_batch_id req) in
        case createBatchHash (req_metadata req) of
          Inl e \<Rightarrow> ConsoleError e # res_json False 500 (ErrorMessage e)
        | Inr batchHash \<Rightarrow>
            StoreInsert \<lparr>new_batch_id = batchId, new_event_type = stage,
                         new_event_data = or_empty_object (req_metadata req),
                         new_event_hash = batchHash\<rparr> #
            (case inserted of
               Inl e \<Rightarrow> ConsoleError e # res_json False 500 (ErrorMessage e)
             | Inr data \<Rightarrow>
                 res_json False 201
                   (StageRecorded ''Stage event recorded successfully'' (first_row data) batchHash) @
                 LedgerAddStage batchId stage batchHash #
                 (case mirror of
                    Inl e \<Rightarrow> ConsoleError e # res_json True 500 (ErrorMessage e)
                  | Inr tx \<Rightarrow> [ConsoleLog (txHash tx) (stageIndex tx)])))"

text \<open>
  \<open>parseInt\<close> without a radix: the argument's string, without the white space at its
  start, is read as an optional sign, an optional \<open>0x\<close> and the longest run of digits
  of the radix; no digit gives \<open>NaN\<close>. The integer read is rounded to the nearest
  double, to the even one of two that are equally near, and is an infinity from 2 to
  the 1024 on.
\<close>

definition is_space :: "nat \<Rightarrow> bool" where
  "is_space u =
     (u \<in> {9, 10, 11, 12, 13, 32, 160, 5760, 8232, 8233, 8239, 8287, 12288, 65279} \<or>
      (8192 \<le> u \<and> u \<le> 8202))"

definition digit_val :: "nat \<Rightarrow> nat" where
  "digit_val u =
     (if 48 \<le> u \<and> u \<le> 57 then u - 48
      else if 97 \<le> u \<and> u \<le> 122 then u - 87
      else if 65 \<le> u \<and> u \<le> 90 then u - 55
      else 36)"

definition parse_digits :: "nat \<Rightarrow> jsstring \<Rightarrow> nat option" where
  "parse_digits radix s =
     (case takeWhile (\<lambda>u. digit_val u < radix) s of
        [] \<Rightarrow> None
      | ds \<Rightarrow> Some (foldl (\<lambda>acc u. radix * acc + digit_val u) 0 ds))"

definition parse_unsigned :: "jsstring \<Rightarrow> nat option" where
  "parse_unsigned s =
     (case s of
        c # x # r \<Rightarrow>
          if c = 48 \<and> (x = 120 \<or> x = 88) then parse_digits 16 r
          else parse_digits 10 s
      | _ \<Rightarrow> parse_digits 10 s)"

fun bitlen :: "nat \<Rightarrow> nat" where
  "bitlen n = (if n = 0 then 0 else Suc (bitlen (n div 2)))"

declare bitlen.simps [simp del]

text \<open>The double nearest to a natural number; \<open>None\<close> when it is an infinity.\<close>

definition round_double :: "nat \<Rightarrow> nat option" where
  "round_double m =
     (if bitlen m \<le> 53 then Some m
      else
        let sh = bitlen m - 53;
            q = m div 2 ^ sh;
            r = m mod 2 ^ sh;
            q' = (if 2 ^ sh < 2 * r \<or> (2 * r = 2 ^ sh \<and> odd q) then q + 1 else q);
            v = q' * 2 ^ sh
        in if 2 ^ 1024 \<le> v then None else Some v)"

text \<open>What \<open>parseInt\<close> returns: \<open>NaN\<close>, an infinity (\<open>True\<close> for the negative one) or an integer.\<close>

datatype double_int = DNaN | DInfinity bool | DInt int

definition to_double :: "bool \<Rightarrow> nat \<Rightarrow> double_int" where
  "to_double negative m =
     (case round_double m of
        None \<Rightarrow> DInfinity negative
      | Some v \<Rightarrow> DInt (if negative then - int v else int v))"

definition parseInt_string :: "jsstring \<Rightarrow> double_int" where
  "parseInt_string s =
     (case dropWhile is_space s of
        [] \<Rightarrow> DNaN
      | c # r \<Rightarrow>
          (case parse_unsigned (if c = 45 \<or> c = 43 then r else c # r) of
             None \<Rightarrow> DNaN
           | Some m \<Rightarrow> to_double (c = 45) m))"

definition parseInt :: "jsval \<Rightarrow> double_int" where
  "parseInt v = parseInt_string (toString v)"

text \<open>\<open>parseInt\<close> of a column: \<open>null\<close> is read as the string \<open>null\<close>.\<close>

definition parseInt_column :: "jsval option \<Rightarrow> double_int" where
  "parseInt_column v = (case v of None \<Rightarrow> parseInt_string (ascii ''null'') | Some x \<Rightarrow> parseInt x)"

text \<open>\<open>===\<close> on two results of \<open>parseInt\<close>: \<open>NaN\<close> equals nothing.\<close>

definition strict_eq :: "double_int \<Rightarrow> double_int \<Rightarrow> bool" where
  "strict_eq a b = (a \<noteq> DNaN \<and> a = b)"

text \<open>The replacer of \<open>processStage\<close>: a BigInt becomes its decimal string.\<close>

fun bigint_to_string :: "jsval \<Rightarrow> jsval" where
  "bigint_to_string (JsBigInt n) = JsString (ascii (dec_int n))"
| "bigint_to_string v = v"

definition safe_stage :: "ledger_stage \<Rightarrow> ledger_stage" where
  "safe_stage stage =
     \<lparr>stageType = bigint_to_string (stageType stage),
      timestamp = bigint_to_string (timestamp stage),
      metadataHash = metadataHash stage\<rparr>"

definition processStage :: "ledger_stage list \<Rightarrow> stage_event \<Rightarrow> js_error + stage_detail" where
  "processStage onChainStages supabaseStage =
     (case createBatchHash (Some (event_data supabaseStage)) of
        Inl e \<Rightarrow> Inl e
      | Inr currentDataHash \<Rightarrow>
          let isDataValid = (currentDataHash = event_hash supabaseStage);
              safeOnChainStage =
                (if isDataValid
                 then map_option safe_stage
                        (find (\<lambda>stage. strict_eq (parseInt (stageType stage))
                                                  (parseInt_column (event_type supabaseStage)))
                           onChainStages)
                 else None);
              onChainVerification =
                (case safeOnChainStage of
                   None \<Rightarrow> False
                 | Some s \<Rightarrow> metadataHash s = event_hash supabaseStage)
          in Inr \<lparr>stage_type = event_type supabaseStage,
                  metadata = event_data supabaseStage,
                  stage_timestamp = created_at supabaseStage,
                  data_integrity = isDataValid,
                  on_chain_verified = onChainVerification,
                  verified = (isDataValid \<and> onChainVerification),
                  on_chain_data = safeOnChainStage\<rparr>)"

text \<open>\<open>Promise.all\<close>: the results in order, or the first rejection.\<close>

fun Promise_all :: "(js_error + 'a) list \<Rightarrow> js_error + 'a list" where
  "Promise_all [] = Inr []"
| "Promise_all (Inl e # ps) = Inl e"
| "Promise_all (Inr x # ps) = (case Promise_all ps of Inl e \<Rightarrow> Inl e | Inr xs \<Rightarrow> Inr (x # xs))"

definition status_of :: "stage_detail list \<Rightarrow> verification_status" where
  "status_of verifiedStages =
     (if length verifiedStages > 0 \<and> list_all verified verifiedStages then FULLY_VERIFIED
      else if list_ex verified verifiedStages then PARTIALLY_VERIFIED
      else NOT_VERIFIED)"

text \<open>
  \<open>GET /batch-stages/:formatted_batch_id\<close>. \<open>query\<close> is the store's answer and
  \<open>call\<close> the outcome of the contract call behind \<open>getBatchSummary\<close>.
\<close>

definition batch_stages ::
  "string \<Rightarrow> js_error + stage_event list \<Rightarrow> js_error + contract_summary \<Rightarrow> effect list" where
  "batch_stages formatted_batch_id query call =
     (if formatted_batch_id = [] then res_json False 400 (ErrorText ''formatted_batch_id is required'')
      else
        case query of
          Inl e \<Rightarrow> ConsoleError e # res_json False 500 (ErrorDetails e ''Failed to fetch batch stages'')
        | Inr supabaseStages \<Rightarrow>
            let chain = getBatchSummary call;
                logged = (case chain of Inl e \<Rightarrow> [ConsoleError e] | Inr s \<Rightarrow> []);
                onChainStages = (case chain of Inl e \<Rightarrow> [] | Inr s \<Rightarrow> stages s)
            in logged @
               (case Promise_all (map (processStage onChainStages) supabaseStages) of
                  Inl e \<Rightarrow> ConsoleError e # res_json False 500 (ErrorDetails e ''Failed to fetch batch stages'')
                | Inr verifiedStages \<Rightarrow>
                    res_json False 200
                      (BatchStages formatted_batch_id formatted_batch_id verifiedStages
                         \<lparr>total_stages = length verifiedStages,
                          verified_stages = length (filter verified verifiedStages),
                          verification_status = status_of verifiedStages\<rparr>)))"

section \<open>The analysis route\<close>

text \<open>\<open>const { rating } = jsonResponse\<close>: \<open>null\<close> cannot be destructured.\<close>

fun get_rating :: "json \<Rightarrow> js_error + json option" where
  "get_rating JNull = Inl TypeError"
| "get_rating (JObj kvs) = Inr (map_of kvs (ascii ''rating''))"
| "get_rating v = Inr None"

text \<open>
  \<open>POST /analyse-pdf\<close>. \<open>download\<close>, \<open>pdf_parse\<close> and \<open>generate\<close> are the outcomes
  of the download, of the text extraction and of the model call with the reading of its
  text; \<open>JSON_parse\<close> is \<open>JSON.parse\<close>.
\<close>

definition analyse_pdf ::
  "(string \<Rightarrow> js_error + json) \<Rightarrow> string option \<Rightarrow> js_error + nat list \<Rightarrow>
   (nat list \<Rightarrow> js_error + string) \<Rightarrow> (string \<Rightarrow> js_error + string) \<Rightarrow> effect list" where
  "analyse_pdf JSON_parse pdfUrl download pdf_parse generate =
     (let failed = (\<lambda>e. ConsoleError e # res_json False 500 (ErrorText ''Failed to analyze PDF.'')) in
      if \<not> truthy_string pdfUrl then res_json False 400 (ErrorText ''PDF URL is required.'')
      else
        case download of
          Inl e \<Rightarrow> failed e
        | Inr buffer \<Rightarrow>
            (case pdf_parse buffer of
               Inl e \<Rightarrow> failed e
             | Inr pdfText \<Rightarrow>
                 (case generate pdfText of
                    Inl e \<Rightarrow> failed e
                  | Inr reply \<Rightarrow>
                      (case JSON_parse reply of
                         Inl e \<Rightarrow> failed e
                       | Inr jsonResponse \<Rightarrow>
                           (case get_rating jsonResponse of
                              Inl e \<Rightarrow> failed e
                            | Inr rating \<Rightarrow> res_json False 200 (Rating rating))))))"

section \<open>Scenarios\<close>

text \<open>The metadata of the recording scenario, the object with \<open>moisture\<close> 12.\<close>

definition moisture :: json where
  "moisture = JObj [(ascii ''moisture'', JNum (Num 12 0))]"

definition moisture_text :: string where
  "moisture_text = CHR 0x7B # CHR 0x22 # ''moisture'' @ CHR 0x22 # '':12}''"

text \<open>
  Metadata whose serialization has an exponent, a fraction, and characters beyond ASCII
  with escapes and a surrogate without its partner; the last text is given by its bytes.
\<close>

definition large_count :: json where
  "large_count = JObj [(ascii ''count'', JNum (Num 1 21))]"

definition large_count_text :: string where
  "large_count_text = CHR 0x7B # CHR 0x22 # ''count'' @ CHR 0x22 # '':1e+21}''"

definition half_moisture :: json where
  "half_moisture = JObj [(ascii ''moisture'', JNum (Num 125 (- 1)))]"

definition half_moisture_text :: string where
  "half_moisture_text = CHR 0x7B # CHR 0x22 # ''moisture'' @ CHR 0x22 # '':12.5}''"

definition herb_note :: json where
  "herb_note =
     JObj [(ascii ''herb'', JStr (ascii ''tulsi '' @ [233, 32, 9752, 32, 55357, 56832])),
           (ascii ''note'', JStr (ascii ''a'' @ [34, 98, 92, 99, 10, 1])),
           (ascii ''lone'', JStr [55357])]"

definition herb_note_bytes :: "nat list" where
  "herb_note_bytes =
     [123, 34, 104, 101, 114, 98, 34, 58, 34, 116, 117, 108, 115, 105, 32, 195, 169, 32,
      226, 152, 152, 32, 240, 159, 152, 128, 34, 44, 34, 110, 111, 116, 101, 34, 58, 34,
      97, 92, 34, 98, 92, 92, 99, 92, 110, 92, 117, 48, 48, 48, 49, 34, 44, 34, 108, 111,
      110, 101, 34, 58, 34, 92, 117, 100, 56, 51, 100, 34, 125]"

text \<open>The ledger stages that \<open>processStage\<close> searches, from the outcome of the contract call.\<close>

definition onChainStages_of :: "js_error + contract_summary \<Rightarrow> ledger_stage list" where
  "onChainStages_of call = (case getBatchSummary call of Inl e \<Rightarrow> [] | Inr s \<Rightarrow> stages s)"

text \<open>
  A stored event whose hash column holds the digest of the empty object, not that of its
  metadata, and a ledger whose only stage has the event's kind and that same hash.
\<close>

definition tampered :: stage_event where
  "tampered =
     \<lparr>batch_id = ''42'', event_type = Some (JsNumber (Num 0 0)), event_data = moisture,
      event_hash = ''44136fa355b3678a1146ad16f7e8649e94fb4fc21fe77e8310c060f61caaff8a'',
      created_at = ''2025-01-01T00:00:00Z''\<rparr>"

definition tampered_mirror :: contract_summary where
  "tampered_mirror =
     \<lparr>c_sku = ''ASHWA-1'', c_stageCount = JsBigInt 1,
      c_stages =
        [\<lparr>c_stageType = JsBigInt 0, c_timestamp = JsBigInt 1735689600,
          c_metadataHash = ''44136fa355b3678a1146ad16f7e8649e94fb4fc21fe77e8310c060f61caaff8a''\<rparr>]\<rparr>"

text \<open>
  Two stored events of the same kind, each with the digest of its own metadata, and a
  ledger that holds a stage for each, in the order of recording.
\<close>

definition first_event :: stage_event where
  "first_event =
     \<lparr>batch_id = ''42'', event_type = Some (JsNumber (Num 0 0)), event_data = moisture,
      event_hash = ''d72b28067d442c4176c85c9940a52c2ee44893075bfb7a31f147e829783cbe4c'',
      created_at = ''2025-01-01T00:00:00Z''\<rparr>"

definition second_event :: stage_event where
  "second_event =
     \<lparr>batch_id = ''42'', event_type = Some (JsNumber (Num 0 0)), event_data = JObj [],
      event_hash = ''44136fa355b3678a1146ad16f7e8649e94fb4fc21fe77e8310c060f61caaff8a'',
      created_at = ''2025-01-02T00:00:00Z''\<rparr>"

definition first_mirror :: ledger_stage where
  "first_mirror =
     \<lparr>stageType = JsBigInt 0, timestamp = JsString (ascii ''1735689600''),
      metadataHash = ''d72b28067d442c4176c85c9940a52c2ee44893075bfb7a31f147e829783cbe4c''\<rparr>"

definition second_mirror :: ledger_stage where
  "second_mirror =
     \<lparr>stageType = JsBigInt 0, timestamp = JsString (ascii ''1735776000''),
      metadataHash = ''44136fa355b3678a1146ad16f7e8649e94fb4fc21fe77e8310c060f61caaff8a''\<rparr>"

text \<open>
  A stage of another kind that carries the second event's hash; in front of the two
  mirrors it is the first stage of the list.
\<close>

definition other_kind :: ledger_stage where
  "other_kind =
     \<lparr>stageType = JsBigInt 1, timestamp = JsString (ascii ''1735603200''),
      metadataHash = ''44136fa355b3678a1146ad16f7e8649e94fb4fc21fe77e8310c060f61caaff8a''\<rparr>"

definition both_mirrored :: contract_summary where
  "both_mirrored =
     \<lparr>c_sku = ''ASHWA-1'', c_stageCount = JsBigInt 2,
      c_stages =
        [\<lparr>c_stageType = JsBigInt 0, c_timestamp = JsBigInt 1735689600,
          c_metadataHash = ''d72b28067d442c4176c85c9940a52c2ee44893075bfb7a31f147e829783cbe4c''\<rparr>,
         \<lparr>c_stageType = JsBigInt 0, c_timestamp = JsBigInt 1735776000,
          c_metadataHash = ''44136fa355b3678a1146ad16f7e8649e94fb4fc21fe77e8310c060f61caaff8a''\<rparr>]\<rparr>"

text \<open>A stored quality test (kind one) with the digest of its metadata.\<close>

definition quality_event :: stage_event where
  "quality_event =
     \<lparr>batch_id = ''42'', event_type = Some (JsNumber (Num 1 0)), event_data = moisture,
      event_hash = ''d72b28067d442c4176c85c9940a52c2ee44893075bfb7a31f147e829783cbe4c'',
      created_at = ''2025-01-01T00:00:00Z''\<rparr>"

text \<open>A contract answer with one stage, a quality test, its integers as BigInts.\<close>

definition one_stage :: contract_summary where
  "one_stage =
     \<lparr>c_sku = ''ASHWA-1'', c_stageCount = JsBigInt 1,
      c_stages =
        [\<lparr>c_stageType = JsBigInt 1, c_timestamp = JsBigInt 1735689600,
          c_metadataHash = ''d72b28067d442c4176c85c9940a52c2ee44893075bfb7a31f147e829783cbe4c''\<rparr>]\<rparr>"

text \<open>The recording scenario: batch 42, a collection event with the moisture metadata.\<close>

definition record_moisture :: add_stage_body where
  "record_moisture =
     \<lparr>req_formatted_batch_id = Some ''42'', req_stage_type = Some ''CollectionEvent'',
      req_metadata = Some moisture\<rparr>"

text \<open>The same request with a stage type that is the name of an inherited method.\<close>

definition record_constructor :: add_stage_body where
  "record_constructor =
     \<lparr>req_formatted_batch_id = Some ''42'', req_stage_type = Some ''constructor'',
      req_metadata = Some moisture\<rparr>"

text \<open>The same request without the metadata field.\<close>

definition record_bare :: add_stage_body where
  "record_bare =
     \<lparr>req_formatted_batch_id = Some ''42'', req_stage_type = Some ''CollectionEvent'',
      req_metadata = None\<rparr>"

text \<open>A reply of the generative model, and a parser that reads exactly that reply.\<close>

definition good_reply :: string where
  "good_reply =
     CHR 0x7B # CHR 0x22 # ''rating'' @ CHR 0x22 # CHR '':'' # CHR 0x22 # ''good'' @ [CHR 0x22, CHR 0x7D]"

definition parse_good_reply :: "string \<Rightarrow> js_error + json" where
  "parse_good_reply s =
     (if s = good_reply then Inr (JObj [(ascii ''rating'', JStr (ascii ''good''))]) else Inl SyntaxError)"

section \<open>Serializations and digests\<close>

lemma replicate_numeral: "replicate (numeral k) x = x # replicate (pred_numeral k) x"
  by (simp add: numeral_eq_Suc)

lemmas sha256_eval =
  sha256_hex_def pad_def be_bytes8_def compress_def sched_def sched_step_def add32_def
  hex32_def digit_char_def H256_def K256_def Ch_def Maj_def bsig0_def bsig1_def ssig0_def
  ssig1_def rotr_def blocks.simps

lemmas json_eval =
  quote_def escape_unit_def unicode_escape_def is_high_def is_low_def ascii_def digit_char_def
  utf8_unit_def utf8_pair_def strip_zeros.simps dec_nat.simps digits_toString_def
  exponent_part_def replicate_numeral Let_def

text \<open>The two test vectors of the standard: one block, and two.\<close>

lemma sha256_abc:
  "sha256_hex (ascii ''abc'') =
     ''ba7816bf8f01cfea414140de5dae2223b00361a396177a9cb410ff61f20015ad''"
  by (simp add: ascii_def sha256_eval replicate_numeral)

lemma sha256_two_blocks:
  "sha256_hex (ascii ''abcdbcdecdefdefgefghfghighijhijkijkljklmklmnlmnomnopnopq'') =
     ''248d6a61d20638b8e5c026930c3e6039a33ce45964ff2167f6ecedd419db06c1''"
  by (simp add: ascii_def sha256_eval replicate_numeral)

lemma text_moisture: "utf8 (JSON_stringify moisture) = ascii moisture_text"
  by (simp add: moisture_def moisture_text_def json_eval)

lemma sha256_moisture:
  "sha256_hex (ascii moisture_text) =
     ''d72b28067d442c4176c85c9940a52c2ee44893075bfb7a31f147e829783cbe4c''"
  by (simp add: moisture_text_def ascii_def sha256_eval replicate_numeral)

lemma createBatchHash_moisture:
  "createBatchHash (Some moisture) =
     Inr ''d72b28067d442c4176c85c9940a52c2ee44893075bfb7a31f147e829783cbe4c''"
  by (simp add: createBatchHash_def text_moisture sha256_moisture)

lemma text_large_count: "utf8 (JSON_stringify large_count) = ascii large_count_text"
  by (simp add: large_count_def large_count_text_def json_eval)

lemma sha256_large_count:
  "sha256_hex (ascii large_count_text) =
     ''39ba0f2c526806ef0ada9656786e01bc6659bfed2f933c35ebff09a37558e451''"
  by (simp add: large_count_text_def ascii_def sha256_eval replicate_numeral)

lemma text_half_moisture: "utf8 (JSON_stringify half_moisture) = ascii half_moisture_text"
  by (simp add: half_moisture_def half_moisture_text_def json_eval)

lemma sha256_half_moisture:
  "sha256_hex (ascii half_moisture_text) =
     ''07f98c2d7d5dbcc0e14cddd3ab2825ef0a389d560046a22d07649342c9e18a11''"
  by (simp add: half_moisture_text_def ascii_def sha256_eval replicate_numeral)

lemma text_herb_note: "utf8 (JSON_stringify herb_note) = herb_note_bytes"
  by (simp add: herb_note_def herb_note_bytes_def json_eval)

lemma sha256_herb_note:
  "sha256_hex herb_note_bytes =
     ''d89ed76a37c54e5baa258cd03bef0541d6551a03c6333427953e441271ed2ff3''"
  by (simp add: herb_note_bytes_def sha256_eval replicate_numeral)

lemma text_empty: "utf8 (JSON_stringify (JObj [])) = [123, 125]"
  by (simp add: json_eval)

lemma sha256_empty:
  "sha256_hex [123, 125] =
     ''44136fa355b3678a1146ad16f7e8649e94fb4fc21fe77e8310c060f61caaff8a''"
  by (simp add: sha256_eval replicate_numeral)

lemma createBatchHash_empty:
  "createBatchHash (Some (JObj [])) =
     Inr ''44136fa355b3678a1146ad16f7e8649e94fb4fc21fe77e8310c060f61caaff8a''"
  by (simp only: createBatchHash_def option.case text_empty sha256_empty)

lemma text_null: "utf8 (JSON_stringify JNull) = [110, 117, 108, 108]"
  by (simp add: json_eval)

lemma sha256_null:
  "sha256_hex [110, 117, 108, 108] =
     ''74234e98afe7498fb5daf1f36ac2d78acc339464f950703b8c019892f982b90b''"
  by (simp add: sha256_eval replicate_numeral)

lemma createBatchHash_null:
  "createBatchHash (Some JNull) =
     Inr ''74234e98afe7498fb5daf1f36ac2d78acc339464f950703b8c019892f982b90b''"
  by (simp only: createBatchHash_def option.case text_null sha256_null)

section \<open>The shape of a digest\<close>

lemma length_round256: "length s = 8 \<Longrightarrow> length (round256 s kw) = 8"
proof -
  assume "length s = 8"
  then obtain a b c d e f g h where s: "s = [a, b, c, d, e, f, g, h]"
    by (auto simp: length_Suc_conv numeral_eq_Suc)
  show ?thesis
    by (cases kw) (simp add: s Let_def)
qed

lemma length_rounds: "length s = 8 \<Longrightarrow> length (foldl round256 s kws) = 8"
  by (induction kws arbitrary: s) (simp_all add: length_round256)

lemma length_compress: "length hs = 8 \<Longrightarrow> length (compress hs block) = 8"
  by (simp add: compress_def length_rounds)

lemma length_blocks: "length hs = 8 \<Longrightarrow> length (foldl compress hs bs) = 8"
  by (induction bs arbitrary: hs) (simp_all add: length_compress)

lemma hex32_digits: "length (hex32 w) = 8 \<and> set (hex32 w) \<subseteq> set ''0123456789abcdef''"
proof -
  have "digit_char (x mod 16) \<in> set ''0123456789abcdef''" for x
    unfolding digit_char_def by (rule nth_mem) simp
  then show ?thesis
    by (auto simp: hex32_def)
qed

lemma hex_words:
  "length (concat (map hex32 ws)) = 8 * length ws \<and>
   set (concat (map hex32 ws)) \<subseteq> set ''0123456789abcdef''"
  using hex32_digits by (induction ws) (simp_all del: set_simps, auto)

lemma sha256_hex_shape:
  "length (sha256_hex bytes) = 64 \<and> set (sha256_hex bytes) \<subseteq> set ''0123456789abcdef''"
proof -
  have "length (foldl compress H256 (blocks (pad bytes))) = 8"
    by (rule length_blocks) (simp add: H256_def)
  then show ?thesis
    using hex_words [of "foldl compress H256 (blocks (pad bytes))"]
    by (simp add: sha256_hex_def)
qed

section \<open>Decimal strings and \<open>parseInt\<close>\<close>

lemma digit_val_digit_char: "d < 10 \<Longrightarrow> digit_val (of_char (digit_char d)) = d"
proof -
  assume "d < 10"
  then consider "d = 0" | "d = 1" | "d = 2" | "d = 3" | "d = 4" | "d = 5" | "d = 6" | "d = 7"
    | "d = 8" | "d = 9"
    by (auto simp: less_Suc_eq numeral_eq_Suc)
  then show ?thesis
    by cases (simp_all add: digit_val_def digit_char_def)
qed

lemma dec_nat_small: "n < 10 \<Longrightarrow> dec_nat n = [digit_char n]"
  by (subst dec_nat.simps) simp

lemma dec_nat_large: "\<not> n < 10 \<Longrightarrow> dec_nat n = dec_nat (n div 10) @ [digit_char (n mod 10)]"
  by (subst dec_nat.simps) simp

lemma dec_nat_digits:
  "dec_nat n \<noteq> [] \<and> (\<forall>c \<in> set (dec_nat n). digit_val (of_char c) < 10)"
proof (induction n rule: dec_nat.induct)
  case (1 n)
  show ?case
  proof (cases "n < 10")
    case True
    then show ?thesis
      by (simp add: dec_nat_small digit_val_digit_char)
  next
    case False
    with 1 have "\<forall>c \<in> set (dec_nat (n div 10)). digit_val (of_char c) < 10"
      by simp
    moreover have "digit_val (of_char (digit_char (n mod 10))) < 10"
      by (simp add: digit_val_digit_char)
    ultimately show ?thesis
      using False by (simp add: dec_nat_large)
  qed
qed

lemma dec_nat_value:
  "foldl (\<lambda>acc u. 10 * acc + digit_val u) 0 (ascii (dec_nat n)) = n"
proof (induction n rule: dec_nat.induct)
  case (1 n)
  show ?case
  proof (cases "n < 10")
    case True
    then show ?thesis
      by (simp add: dec_nat_small ascii_def digit_val_digit_char)
  next
    case False
    with 1 have "foldl (\<lambda>acc u. 10 * acc + digit_val u) 0 (ascii (dec_nat (n div 10))) = n div 10"
      by simp
    then show ?thesis
      using False by (simp add: dec_nat_large ascii_def digit_val_digit_char)
  qed
qed

lemma length_dec_nat: "0 < k \<Longrightarrow> n < 10 ^ k \<Longrightarrow> length (dec_nat n) \<le> k"
proof (induction n arbitrary: k rule: dec_nat.induct)
  case (1 n)
  show ?case
  proof (cases "n < 10")
    case True
    with 1(2) show ?thesis
      by (simp add: dec_nat_small Suc_leI)
  next
    case False
    with 1(3) have k: "1 < k"
      by (cases "k = 1") (use 1(2) in auto)
    then obtain j where j: "k = Suc j" "0 < j"
      by (cases k) auto
    from 1(3) j have "n div 10 < 10 ^ j"
      by (simp add: less_mult_imp_div_less mult.commute)
    with 1(1) False j have "length (dec_nat (n div 10)) \<le> j"
      by simp
    with False j show ?thesis
      by (simp add: dec_nat_large)
  qed
qed

lemma parse_digits_dec_nat: "parse_digits 10 (ascii (dec_nat n)) = Some n"
proof -
  have "\<forall>u \<in> set (ascii (dec_nat n)). digit_val u < 10"
    using dec_nat_digits [of n] by (simp add: ascii_def)
  then have all: "takeWhile (\<lambda>u. digit_val u < 10) (ascii (dec_nat n)) = ascii (dec_nat n)"
    by (simp add: takeWhile_eq_all_conv)
  obtain u us where us: "ascii (dec_nat n) = u # us"
    using dec_nat_digits [of n] by (cases "dec_nat n") (auto simp: ascii_def)
  have "parse_digits 10 (ascii (dec_nat n)) =
      Some (foldl (\<lambda>acc u. 10 * acc + digit_val u) 0 (ascii (dec_nat n)))"
    unfolding parse_digits_def all by (simp add: us)
  then show ?thesis
    by (simp add: dec_nat_value)
qed

lemma parse_unsigned_dec_nat: "parse_unsigned (ascii (dec_nat n)) = Some n"
proof -
  have digits: "\<forall>u \<in> set (ascii (dec_nat n)). digit_val u < 10"
    using dec_nat_digits [of n] by (simp add: ascii_def)
  have "digit_val 120 = 33" "digit_val 88 = 33"
    by (simp_all add: digit_val_def)
  with digits have x: "120 \<notin> set (ascii (dec_nat n))" "88 \<notin> set (ascii (dec_nat n))"
    by auto
  have "parse_unsigned (ascii (dec_nat n)) = parse_digits 10 (ascii (dec_nat n))"
    using x by (auto simp: parse_unsigned_def split: list.splits)
  then show ?thesis
    by (simp add: parse_digits_dec_nat)
qed

lemma first_digit:
  obtains u us where "ascii (dec_nat n) = u # us" "\<not> is_space u" "u \<noteq> 45" "u \<noteq> 43"
proof -
  obtain u us where us: "ascii (dec_nat n) = u # us"
    using dec_nat_digits [of n] by (cases "dec_nat n") (auto simp: ascii_def)
  have "digit_val u < 10"
    using dec_nat_digits [of n] us by (auto simp: ascii_def)
  then have "\<not> is_space u" "u \<noteq> 45" "u \<noteq> 43"
    by (auto simp: is_space_def digit_val_def split: if_splits)
  with us that show thesis by blast
qed

lemma parseInt_string_dec_nat: "parseInt_string (ascii (dec_nat n)) = to_double False n"
proof -
  obtain u us where us: "ascii (dec_nat n) = u # us" "\<not> is_space u" "u \<noteq> 45" "u \<noteq> 43"
    by (rule first_digit)
  have "parse_unsigned (u # us) = Some n"
    using parse_unsigned_dec_nat [of n] us(1) by simp
  with us show ?thesis
    by (simp add: parseInt_string_def)
qed

lemma parseInt_string_minus: "parseInt_string (45 # ascii (dec_nat n)) = to_double True n"
  by (simp add: parseInt_string_def is_space_def parse_unsigned_dec_nat)

lemma parseInt_BigInt:
  "parseInt (JsBigInt j) = (if j < 0 then to_double True (nat (- j)) else to_double False (nat j))"
  by (simp add: parseInt_def dec_int_def ascii_def parseInt_string_minus [unfolded ascii_def]
      parseInt_string_dec_nat [unfolded ascii_def])

text \<open>Rounding leaves the integers below 2 to the 53 alone and keeps the others above.\<close>

lemma bitlen_le: "n < 2 ^ k \<Longrightarrow> bitlen n \<le> k"
proof (induction n arbitrary: k rule: bitlen.induct)
  case (1 n)
  show ?case
  proof (cases "n = 0")
    case True
    then show ?thesis by (subst bitlen.simps) simp
  next
    case False
    with 1(2) obtain j where j: "k = Suc j"
      by (cases k) auto
    with 1(2) have "n div 2 < 2 ^ j"
      by (simp add: less_mult_imp_div_less mult.commute)
    with 1(1) False have "bitlen (n div 2) \<le> j" by simp
    with False j show ?thesis by (subst bitlen.simps) simp
  qed
qed

lemma bitlen_0: "bitlen 0 = 0"
  by (subst bitlen.simps) simp

lemma bitlen_lower: "n \<noteq> 0 \<Longrightarrow> 2 ^ (bitlen n - 1) \<le> n"
proof (induction n rule: bitlen.induct)
  case (1 n)
  show ?case
  proof (cases "n div 2 = 0")
    case True
    with 1(2) have "n = 1" by (auto simp: div_eq_0_iff)
    then show ?thesis by (subst bitlen.simps) (simp add: bitlen_0)
  next
    case False
    with 1 have ih: "2 ^ (bitlen (n div 2) - 1) \<le> n div 2" by simp
    from False have pos: "0 < bitlen (n div 2)"
      by (subst bitlen.simps) simp
    have "bitlen n = Suc (bitlen (n div 2))"
      using 1(2) by (subst bitlen.simps) simp
    then have "2 ^ (bitlen n - 1) = 2 * 2 ^ (bitlen (n div 2) - 1)"
      using pos by (cases "bitlen (n div 2)") simp_all
    also have "\<dots> \<le> 2 * (n div 2)" using ih by simp
    also have "\<dots> \<le> n" by simp
    finally show ?thesis .
  qed
qed

lemma round_double_safe: "m < 2 ^ 53 \<Longrightarrow> round_double m = Some m"
  by (simp add: round_double_def bitlen_le)

lemma round_double_large:
  assumes "\<not> bitlen m \<le> 53" and "round_double m = Some v"
  shows "2 ^ 53 \<le> v"
proof -
  define sh where "sh = bitlen m - 53"
  define q where "q = m div 2 ^ sh"
  from assms(1) have sh: "bitlen m - 1 = sh + 52" "0 < sh"
    by (simp_all add: sh_def)
  from assms(1) have "m \<noteq> 0"
    by (subst (asm) bitlen.simps) (auto split: if_splits)
  then have "2 ^ (sh + 52) \<le> m"
    using bitlen_lower [of m] sh(1) by simp
  then have "(2 ^ sh * 2 ^ 52) div 2 ^ sh \<le> m div 2 ^ sh"
    by (intro div_le_mono) (simp add: power_add)
  then have q: "(2::nat) ^ 52 \<le> q"
    by (simp add: q_def)
  have "q * 2 ^ sh \<le> v"
    using assms by (auto simp: round_double_def Let_def sh_def q_def split: if_splits)
  moreover have "(2::nat) ^ 1 \<le> 2 ^ sh"
    using sh(2) by (intro power_increasing) simp_all
  with q have "(2::nat) ^ 52 * 2 ^ 1 \<le> q * 2 ^ sh"
    by (intro mult_le_mono)
  ultimately show ?thesis by simp
qed

lemma round_double_eq_safe:
  assumes "round_double m = Some v" and "v < 2 ^ 53"
  shows "m = v"
proof (cases "bitlen m \<le> 53")
  case True
  with assms(1) show ?thesis by (simp add: round_double_def)
next
  case False
  from round_double_large [OF False assms(1)] assms(2) show ?thesis by simp
qed

lemma parseInt_BigInt_safe:
  "0 \<le> j \<Longrightarrow> j < 2 ^ 53 \<Longrightarrow> parseInt (JsBigInt j) = DInt j"
proof -
  assume j: "0 \<le> j" "j < 2 ^ 53"
  then have "nat j < 2 ^ 53"
    by (simp add: nat_less_iff)
  with j(1) show ?thesis
    by (simp add: parseInt_BigInt to_double_def round_double_safe)
qed

lemma parseInt_BigInt_DInt:
  assumes "parseInt (JsBigInt j) = DInt k" and "0 \<le> k" and "k < 2 ^ 53"
  shows "j = k"
proof (cases "j < 0")
  case True
  with assms(1) obtain v where v: "round_double (nat (- j)) = Some v" "k = - int v"
    by (auto simp: parseInt_BigInt to_double_def split: option.splits)
  with assms(2) have "v = 0" by simp
  with v(1) have "nat (- j) = 0"
    using round_double_eq_safe [of "nat (- j)" v] by simp
  with True show ?thesis by simp
next
  case False
  with assms(1) obtain v where v: "round_double (nat j) = Some v" "k = int v"
    by (auto simp: parseInt_BigInt to_double_def split: option.splits)
  with assms(3) have "v < 2 ^ 53"
    by (simp add: nat_less_iff flip: of_nat_less_iff)
  with v(1) have "nat j = v"
    by (rule round_double_eq_safe)
  with False v(2) show ?thesis by simp
qed

text \<open>A Number that is an integer below ten to the twenty-one prints with all its digits.\<close>

lemma strip_zeros_digits:
  "s \<noteq> 0 \<Longrightarrow> strip_zeros s e = (s', e') \<Longrightarrow>
   e \<le> e' \<and> dec_nat s' @ replicate (nat (e' - e)) CHR ''0'' = dec_nat s"
proof (induction s e rule: strip_zeros.induct)
  case (1 s e)
  show ?case
  proof (cases "s mod 10 = 0")
    case True
    with 1(2) have big: "\<not> s < 10" "s div 10 \<noteq> 0"
      by (auto simp: div_eq_0_iff)
    from 1(3) True 1(2) have "strip_zeros (s div 10) (e + 1) = (s', e')"
      by (subst (asm) strip_zeros.simps) simp
    with 1(1) 1(2) True big have ih: "e + 1 \<le> e'"
      "dec_nat s' @ replicate (nat (e' - (e + 1))) CHR ''0'' = dec_nat (s div 10)"
      by simp_all
    have "nat (e' - e) = Suc (nat (e' - (e + 1)))"
      using ih(1) by simp
    then have "dec_nat s' @ replicate (nat (e' - e)) CHR ''0'' =
        (dec_nat s' @ replicate (nat (e' - (e + 1))) CHR ''0'') @ [CHR ''0'']"
      by (simp add: replicate_append_same)
    also have "\<dots> = dec_nat s"
      using ih(2) big(1) True by (simp add: dec_nat_large digit_char_def)
    finally show ?thesis using ih(1) by simp
  next
    case False
    with 1(3) show ?thesis
      by (subst (asm) strip_zeros.simps) simp
  qed
qed

lemma Number_toString_integer:
  assumes "\<bar>c\<bar> < 10 ^ 21"
  shows "Number_toString (Num c 0) = dec_int c"
proof (cases "c = 0")
  case True
  then show ?thesis
    by (simp add: dec_int_def dec_nat_small digit_char_def)
next
  case False
  obtain s' e' where se: "strip_zeros (nat \<bar>c\<bar>) 0 = (s', e')"
    by (cases "strip_zeros (nat \<bar>c\<bar>) 0")
  from False have nz: "nat \<bar>c\<bar> \<noteq> 0" by simp
  from strip_zeros_digits [OF nz se] have e: "0 \<le> e'"
    and ds: "dec_nat s' @ replicate (nat e') CHR ''0'' = dec_nat (nat \<bar>c\<bar>)"
    by simp_all
  from assms have "nat \<bar>c\<bar> < 10 ^ 21"
    by (simp add: nat_less_iff)
  then have "length (dec_nat (nat \<bar>c\<bar>)) \<le> 21"
    by (intro length_dec_nat) simp_all
  with ds have len: "length (dec_nat s') + nat e' \<le> 21"
    by (metis length_append length_replicate)
  from len e have len': "int (length (dec_nat s')) + e' \<le> 21"
    by linarith
  have "digits_toString (dec_nat s') (int (length (dec_nat s')) + e') = dec_nat (nat \<bar>c\<bar>)"
    using e len' ds by (simp add: digits_toString_def Let_def)
  with False se show ?thesis
    by (simp add: dec_int_def Let_def abs_if)
qed

lemma parseInt_Number_safe:
  assumes "0 \<le> k" and "k < 2 ^ 53"
  shows "parseInt (JsNumber (Num k 0)) = DInt k"
proof -
  have "(2::int) ^ 53 < 10 ^ 21" by simp
  with assms have "\<bar>k\<bar> < 10 ^ 21" by simp
  then have "toString (JsNumber (Num k 0)) = toString (JsBigInt k)"
    by (simp only: toString.simps Number_toString_integer)
  then have "parseInt (JsNumber (Num k 0)) = parseInt (JsBigInt k)"
    by (simp add: parseInt_def)
  with assms show ?thesis
    by (simp add: parseInt_BigInt_safe)
qed

lemma parseInt_null: "parseInt_column None = DNaN"
  by (simp add: parseInt_column_def parseInt_string_def ascii_def is_space_def
      parse_unsigned_def parse_digits_def digit_val_def)

section \<open>The stage check\<close>

lemma processStage_valid:
  "createBatchHash (Some (event_data s)) = Inr (event_hash s) \<Longrightarrow>
   processStage cs s =
     (let found = map_option safe_stage
                    (find (\<lambda>stage. strict_eq (parseInt (stageType stage))
                                               (parseInt_column (event_type s))) cs);
          ok = (case found of None \<Rightarrow> False | Some l \<Rightarrow> metadataHash l = event_hash s)
      in Inr \<lparr>stage_type = event_type s, metadata = event_data s,
              stage_timestamp = created_at s, data_integrity = True,
              on_chain_verified = ok, verified = ok, on_chain_data = found\<rparr>)"
  by (simp add: processStage_def Let_def)

lemma processStage_invalid:
  "createBatchHash (Some (event_data s)) \<noteq> Inr (event_hash s) \<Longrightarrow>
   processStage cs s =
     Inr \<lparr>stage_type = event_type s, metadata = event_data s,
          stage_timestamp = created_at s, data_integrity = False,
          on_chain_verified = False, verified = False, on_chain_data = None\<rparr>"
  by (simp add: processStage_def createBatchHash_def Let_def)

lemma processStage_total: "\<exists>d. processStage cs s = Inr d"
  by (simp add: processStage_def createBatchHash_def Let_def)

lemma Promise_all_processStage:
  "\<exists>vs. Promise_all (map (processStage cs) rows) = Inr vs \<and>
        list_all2 (\<lambda>r d. processStage cs r = Inr d) rows vs"
proof (induction rows)
  case Nil
  show ?case by simp
next
  case (Cons r rows)
  obtain d where d: "processStage cs r = Inr d"
    using processStage_total by blast
  from Cons obtain vs where "Promise_all (map (processStage cs) rows) = Inr vs"
    and "list_all2 (\<lambda>r d. processStage cs r = Inr d) rows vs" by blast
  with d show ?case by simp
qed

lemma batch_stages_ok:
  assumes "fid \<noteq> []"
  shows "\<exists>vs. list_all2 (\<lambda>r d. processStage (onChainStages_of call) r = Inr d) rows vs \<and>
    response_of (batch_stages fid (Inr rows) call) =
      Some (Respond 200 (BatchStages fid fid vs
        \<lparr>total_stages = length vs, verified_stages = length (filter verified vs),
         verification_status = status_of vs\<rparr>))"
proof -
  obtain vs where vs: "Promise_all (map (processStage (onChainStages_of call)) rows) = Inr vs"
    and rel: "list_all2 (\<lambda>r d. processStage (onChainStages_of call) r = Inr d) rows vs"
    using Promise_all_processStage by blast
  have "response_of (batch_stages fid (Inr rows) call) =
      Some (Respond 200 (BatchStages fid fid vs
        \<lparr>total_stages = length vs, verified_stages = length (filter verified vs),
         verification_status = status_of vs\<rparr>))"
    using assms vs
    by (cases "getBatchSummary call")
       (simp_all add: batch_stages_def onChainStages_of_def response_of_def res_json_def Let_def)
  with rel show ?thesis by blast
qed


lemma batch_stages_nth:
  assumes "fid \<noteq> []" and "i < length rows"
    and "processStage (onChainStages_of call) (rows ! i) = Inr d"
  shows "\<exists>vs sm. response_of (batch_stages fid (Inr rows) call) =
           Some (Respond 200 (BatchStages fid fid vs sm)) \<and>
         length vs = length rows \<and> vs ! i = d"
proof -
  from batch_stages_ok [OF assms(1), of call rows] obtain vs where
    rel: "list_all2 (\<lambda>r d. processStage (onChainStages_of call) r = Inr d) rows vs" and
    resp: "response_of (batch_stages fid (Inr rows) call) =
      Some (Respond 200 (BatchStages fid fid vs
        \<lparr>total_stages = length vs, verified_stages = length (filter verified vs),
         verification_status = status_of vs\<rparr>))"
    by blast
  from rel have len: "length vs = length rows"
    by (simp add: list_all2_lengthD)
  from rel assms(2) have "processStage (onChainStages_of call) (rows ! i) = Inr (vs ! i)"
    by (rule list_all2_nthD)
  with assms(3) have "vs ! i = d" by simp
  with resp len show ?thesis by blast
qed

lemma find_Some_set: "find P xs = Some x \<Longrightarrow> x \<in> set xs \<and> P x"
  by (induction xs) (auto split: if_splits)

lemma find_first:
  "P l \<Longrightarrow> \<forall>x \<in> set before. \<not> P x \<Longrightarrow> find P (before @ l # behind) = Some l"
  by (induction before) auto

lemma find_none: "\<forall>x \<in> set xs. \<not> P x \<Longrightarrow> find P xs = None"
  by (induction xs) auto

lemma processStage_attached:
  assumes "processStage cs r = Inr d" and "on_chain_data d = Some l"
  shows "\<exists>stage \<in> set cs.
           strict_eq (parseInt (stageType stage)) (parseInt_column (event_type r)) \<and>
           l = safe_stage stage"
proof -
  from assms obtain stage where
    "find (\<lambda>stage. strict_eq (parseInt (stageType stage)) (parseInt_column (event_type r))) cs =
       Some stage" and "l = safe_stage stage"
    by (auto simp: processStage_def Let_def split: sum.splits if_splits)
  then show ?thesis
    using find_Some_set by fastforce
qed

text \<open>The kinds of the scenarios, as \<open>parseInt\<close> reads them.\<close>

lemma kind_of_column:
  "parseInt_column (Some (JsNumber (Num 0 0))) = DInt 0"
  "parseInt_column (Some (JsNumber (Num 1 0))) = DInt 1"
  using parseInt_Number_safe [of 0] parseInt_Number_safe [of 1]
  by (simp_all add: parseInt_column_def)

lemma kind_of_stage:
  "parseInt (JsBigInt 0) = DInt 0"
  "parseInt (JsBigInt 1) = DInt 1"
  using parseInt_BigInt_safe [of 0] parseInt_BigInt_safe [of 1]
  by simp_all

section \<open>The serializer and \<open>parseInt\<close> on examples\<close>

lemmas parseInt_eval =
  parseInt_def parseInt_string_def parse_unsigned_def parse_digits_def digit_val_def
  is_space_def to_double_def round_double_def bitlen.simps dec_int_def

lemma stringify_nested:
  "JSON_stringify
     (JObj [(ascii ''a'', JArr [JNum (Num (- 1) 0), JBool True, JNull, JNum Infinity,
                                 JNum (Num 1 (- 7)), JNum (Num 12345678901234568 4)]),
            (ascii ''b'', JStr [120, 34, 10, 56832])]) =
   ascii (CHR 0x7B # CHR 0x22 # ''a'' @ CHR 0x22 #
          '':[-1,true,null,null,1e-7,123456789012345680000],'' @ CHR 0x22 # ''b'' @ CHR 0x22 #
          CHR '':'' # CHR 0x22 # CHR ''x'' # CHR 0x5C # CHR 0x22 # CHR 0x5C # ''n'' @
          CHR 0x5C # ''ude00'' @ [CHR 0x22, CHR 0x7D])"
  by (simp add: json_eval)

lemma parseInt_examples:
  "parseInt (JsString (ascii ''  42abc'')) = DInt 42"
  "parseInt (JsString (ascii ''-7'')) = DInt (- 7)"
  "parseInt (JsString (ascii ''0x1f'')) = DInt 31"
  "parseInt (JsString (ascii ''abc'')) = DNaN"
  "parseInt (JsString []) = DNaN"
  "parseInt (JsString (160 # 65279 # ascii ''7'')) = DInt 7"
  "parseInt (JsNumber (Num 125 (- 1))) = DInt 12"
  "parseInt (JsNumber (Num 1 21)) = DInt 1"
  "parseInt (JsNumber Infinity) = DNaN"
  by (simp_all add: parseInt_eval json_eval)

text \<open>Above 2 to the 53 a BigInt is read as the nearest double.\<close>

lemma parseInt_rounds:
  "parseInt (JsBigInt 9007199254740993) = DInt 9007199254740992"
  "parseInt (JsBigInt 9007199254740995) = DInt 9007199254740996"
  "parseInt (JsNumber (Num 9007199254740992 0)) = DInt 9007199254740992"
  by (simp_all add: parseInt_eval json_eval)

section \<open>Claims\<close>

text \<open>
  C1. In the stage list of \<open>GET /batch-stages\<close>, a stored event whose hash column
  differs from the hash recomputed from its metadata is reported with
  \<open>data_integrity\<close>, \<open>on_chain_verified\<close> and \<open>verified\<close> all false and with no
  ledger stage attached, and \<open>processStage\<close> gives that same entry whatever ledger
  stage list it is handed: the list is searched only after the integrity check passed.
\<close>

theorem integrity_failure_short_circuits:
  assumes "fid \<noteq> []" and "i < length rows"
    and "createBatchHash (Some (event_data (rows ! i))) \<noteq> Inr (event_hash (rows ! i))"
  shows "\<exists>vs sm. response_of (batch_stages fid (Inr rows) call) =
           Some (Respond 200 (BatchStages fid fid vs sm)) \<and>
         length vs = length rows \<and>
         vs ! i =
           \<lparr>stage_type = event_type (rows ! i), metadata = event_data (rows ! i),
            stage_timestamp = created_at (rows ! i), data_integrity = False,
            on_chain_verified = False, verified = False, on_chain_data = None\<rparr> \<and>
         processStage onChainStages (rows ! i) = Inr (vs ! i)"
proof -
  let ?d = "\<lparr>stage_type = event_type (rows ! i), metadata = event_data (rows ! i),
            stage_timestamp = created_at (rows ! i), data_integrity = False,
            on_chain_verified = False, verified = False, on_chain_data = None\<rparr>"
  have any: "processStage cs (rows ! i) = Inr ?d" for cs
    using assms(3) by (rule processStage_invalid)
  from batch_stages_nth [OF assms(1,2) any] obtain vs sm where
    "response_of (batch_stages fid (Inr rows) call) =
       Some (Respond 200 (BatchStages fid fid vs sm))" "length vs = length rows" "vs ! i = ?d"
    by blast
  with any show ?thesis by auto
qed

theorem integrity_failure_short_circuits_witness:
  "\<exists>vs sm. response_of (batch_stages ''42'' (Inr [tampered]) (Inr tampered_mirror)) =
           Some (Respond 200 (BatchStages ''42'' ''42'' vs sm)) \<and>
         length vs = 1 \<and>
         vs ! 0 =
           \<lparr>stage_type = Some (JsNumber (Num 0 0)), metadata = moisture,
            stage_timestamp = ''2025-01-01T00:00:00Z'', data_integrity = False,
            on_chain_verified = False, verified = False, on_chain_data = None\<rparr> \<and>
         processStage (map map_stage (c_stages tampered_mirror)) tampered = Inr (vs ! 0)"
  using integrity_failure_short_circuits
    [of "''42''" 0 "[tampered]" "Inr tampered_mirror" "map map_stage (c_stages tampered_mirror)"]
  by (simp add: tampered_def createBatchHash_moisture)

lemma status_of_cases:
  "(status_of vs = FULLY_VERIFIED) = (vs \<noteq> [] \<and> (\<forall>d \<in> set vs. verified d))"
  "(status_of vs = PARTIALLY_VERIFIED) =
     ((\<exists>d \<in> set vs. verified d) \<and> (\<exists>d \<in> set vs. \<not> verified d))"
  "(status_of vs = NOT_VERIFIED) = (\<forall>d \<in> set vs. \<not> verified d)"
  by (auto simp: status_of_def list_all_iff list_ex_iff)

text \<open>
  C2. The summary of \<open>GET /batch-stages\<close> is \<open>FULLY_VERIFIED\<close> exactly when the
  stage list is non-empty and every entry is verified, \<open>PARTIALLY_VERIFIED\<close> exactly
  when some entry is verified and some is not, \<open>NOT_VERIFIED\<close> exactly when no entry is
  verified; a batch without stored events gives an empty list and \<open>NOT_VERIFIED\<close>.
\<close>

theorem batch_stages_summary:
  assumes "fid \<noteq> []"
  shows "\<exists>vs sm. response_of (batch_stages fid (Inr rows) call) =
           Some (Respond 200 (BatchStages fid fid vs sm)) \<and>
         list_all2 (\<lambda>r d. processStage (onChainStages_of call) r = Inr d) rows vs \<and>
         total_stages sm = length vs \<and>
         verified_stages sm = length (filter verified vs) \<and>
         ((verification_status sm = FULLY_VERIFIED) =
            (vs \<noteq> [] \<and> (\<forall>d \<in> set vs. verified d))) \<and>
         ((verification_status sm = PARTIALLY_VERIFIED) =
            ((\<exists>d \<in> set vs. verified d) \<and> (\<exists>d \<in> set vs. \<not> verified d))) \<and>
         ((verification_status sm = NOT_VERIFIED) = (\<forall>d \<in> set vs. \<not> verified d)) \<and>
         (rows = [] \<longrightarrow> vs = [] \<and> verification_status sm = NOT_VERIFIED)"
proof -
  from batch_stages_ok [OF assms, of call rows] obtain vs where
    rel: "list_all2 (\<lambda>r d. processStage (onChainStages_of call) r = Inr d) rows vs" and
    resp: "response_of (batch_stages fid (Inr rows) call) =
      Some (Respond 200 (BatchStages fid fid vs
        \<lparr>total_stages = length vs, verified_stages = length (filter verified vs),
         verification_status = status_of vs\<rparr>))"
    by blast
  let ?sm = "\<lparr>total_stages = length vs, verified_stages = length (filter verified vs),
         verification_status = status_of vs\<rparr>"
  have empty: "rows = [] \<longrightarrow> vs = [] \<and> verification_status ?sm = NOT_VERIFIED"
    using rel by (auto simp: status_of_def)
  have "total_stages ?sm = length vs" "verified_stages ?sm = length (filter verified vs)"
    "(verification_status ?sm = FULLY_VERIFIED) = (vs \<noteq> [] \<and> (\<forall>d \<in> set vs. verified d))"
    "(verification_status ?sm = PARTIALLY_VERIFIED) =
       ((\<exists>d \<in> set vs. verified d) \<and> (\<exists>d \<in> set vs. \<not> verified d))"
    "(verification_status ?sm = NOT_VERIFIED) = (\<forall>d \<in> set vs. \<not> verified d)"
    by (simp_all add: status_of_cases)
  with resp rel empty show ?thesis by blast
qed

theorem batch_stages_summary_witness:
  "\<exists>vs sm. response_of (batch_stages ''42'' (Inr [first_event, second_event]) (Inr both_mirrored)) =
           Some (Respond 200 (BatchStages ''42'' ''42'' vs sm)) \<and>
         map verified vs = [True, False] \<and>
         total_stages sm = 2 \<and> verified_stages sm = 1 \<and>
         verification_status sm = PARTIALLY_VERIFIED"
proof -
  from batch_stages_summary [of "''42''" "[first_event, second_event]" "Inr both_mirrored"]
  obtain vs sm where
    resp: "response_of (batch_stages ''42'' (Inr [first_event, second_event]) (Inr both_mirrored)) =
           Some (Respond 200 (BatchStages ''42'' ''42'' vs sm))" and
    rel: "list_all2 (\<lambda>r d. processStage (onChainStages_of (Inr both_mirrored)) r = Inr d)
            [first_event, second_event] vs" and
    tot: "total_stages sm = length vs" and
    cnt: "verified_stages sm = length (filter verified vs)" and
    part: "(verification_status sm = PARTIALLY_VERIFIED) =
            ((\<exists>d \<in> set vs. verified d) \<and> (\<exists>d \<in> set vs. \<not> verified d))"
    by auto
  have one: "processStage (onChainStages_of (Inr both_mirrored)) first_event = Inr d \<Longrightarrow> verified d" for d
    by (auto simp: processStage_def onChainStages_of_def getBatchSummary_def both_mirrored_def
        map_stage_def first_event_def createBatchHash_moisture strict_eq_def safe_stage_def Let_def
        kind_of_column kind_of_stage)
  have two: "processStage (onChainStages_of (Inr both_mirrored)) second_event = Inr d \<Longrightarrow> \<not> verified d" for d
    by (auto simp: processStage_def onChainStages_of_def getBatchSummary_def both_mirrored_def
        map_stage_def second_event_def createBatchHash_empty strict_eq_def safe_stage_def Let_def
        kind_of_column kind_of_stage)
  from rel obtain a b where vs: "vs = [a, b]"
    and a: "processStage (onChainStages_of (Inr both_mirrored)) first_event = Inr a"
    and b: "processStage (onChainStages_of (Inr both_mirrored)) second_event = Inr b"
    by (auto simp: list_all2_Cons1)
  from one [OF a] two [OF b] vs have flags: "map verified vs = [True, False]" by simp
  with vs tot cnt part one [OF a] two [OF b] resp show ?thesis by auto
qed

text \<open>
  C3. When the contract call behind the ledger fetch fails, \<open>GET /batch-stages\<close> logs
  the error and goes on as with a ledger without stages: the response is a 200 with one
  entry per stored event, none of them verified on chain, and the summary
  \<open>NOT_VERIFIED\<close>.
\<close>

theorem ledger_failure_degrades:
  assumes "fid \<noteq> []"
  shows "batch_stages fid (Inr rows) (Inl e) =
           ConsoleError e #
           batch_stages fid (Inr rows) (Inr \<lparr>c_sku = k, c_stageCount = n, c_stages = []\<rparr>) \<and>
         (\<exists>vs sm. response_of (batch_stages fid (Inr rows) (Inl e)) =
             Some (Respond 200 (BatchStages fid fid vs sm)) \<and>
           length vs = length rows \<and>
           (\<forall>d \<in> set vs. \<not> on_chain_verified d \<and> \<not> verified d \<and> on_chain_data d = None) \<and>
           verification_status sm = NOT_VERIFIED)"
proof -
  have same: "batch_stages fid (Inr rows) (Inl e) =
           ConsoleError e #
           batch_stages fid (Inr rows) (Inr \<lparr>c_sku = k, c_stageCount = n, c_stages = []\<rparr>)"
    using assms by (simp add: batch_stages_def getBatchSummary_def Let_def)
  from batch_stages_ok [OF assms, of "Inl e" rows] obtain vs where
    rel: "list_all2 (\<lambda>r d. processStage (onChainStages_of (Inl e)) r = Inr d) rows vs" and
    resp: "response_of (batch_stages fid (Inr rows) (Inl e)) =
      Some (Respond 200 (BatchStages fid fid vs
        \<lparr>total_stages = length vs, verified_stages = length (filter verified vs),
         verification_status = status_of vs\<rparr>))"
    by blast
  have empty: "onChainStages_of (Inl e) = []"
    by (simp add: onChainStages_of_def getBatchSummary_def)
  have flags: "\<not> on_chain_verified d \<and> \<not> verified d \<and> on_chain_data d = None"
    if "d \<in> set vs" for d
  proof -
    from that rel obtain r where "processStage [] r = Inr d"
      unfolding empty by (auto simp: list_all2_conv_all_nth in_set_conv_nth)
    then show ?thesis
      by (auto simp: processStage_def Let_def split: sum.splits if_splits)
  qed
  from rel have len: "length vs = length rows" by (simp add: list_all2_lengthD)
  from flags have "status_of vs = NOT_VERIFIED" by (simp add: status_of_cases)
  with same resp len flags show ?thesis by auto
qed

theorem ledger_failure_degrades_witness:
  "batch_stages ''42'' (Inr [first_event]) (Inl (AdapterError ''network'')) =
     ConsoleError (AdapterError ''network'') #
     batch_stages ''42'' (Inr [first_event])
       (Inr \<lparr>c_sku = [], c_stageCount = JsBigInt 0, c_stages = []\<rparr>) \<and>
   (\<exists>vs sm. response_of (batch_stages ''42'' (Inr [first_event]) (Inl (AdapterError ''network''))) =
       Some (Respond 200 (BatchStages ''42'' ''42'' vs sm)) \<and>
     length vs = 1 \<and> \<not> on_chain_verified (vs ! 0) \<and> \<not> verified (vs ! 0) \<and>
     verification_status sm = NOT_VERIFIED)"
proof -
  from ledger_failure_degrades [of "''42''" "[first_event]" "AdapterError ''network''" "[]" "JsBigInt 0"]
  show ?thesis by (auto simp: length_Suc_conv)
qed

lemma other_kind_no_match:
  assumes "0 \<le> k" and "k < 2 ^ 53" and "stageType x = JsBigInt j" and "j \<noteq> k"
  shows "\<not> strict_eq (parseInt (stageType x)) (parseInt_column (Some (JsNumber (Num k 0))))"
proof
  assume "strict_eq (parseInt (stageType x)) (parseInt_column (Some (JsNumber (Num k 0))))"
  then have "parseInt (JsBigInt j) = DInt k"
    using assms(1,2,3) by (simp add: strict_eq_def parseInt_column_def parseInt_Number_safe)
  from parseInt_BigInt_DInt [OF this assms(1,2)] assms(4) show False by simp
qed

lemma same_kind_match:
  assumes "0 \<le> k" and "k < 2 ^ 53" and "stageType l = JsBigInt k"
  shows "strict_eq (parseInt (stageType l)) (parseInt_column (Some (JsNumber (Num k 0))))"
  using assms
  by (simp add: strict_eq_def parseInt_column_def parseInt_Number_safe parseInt_BigInt_safe)

text \<open>
  C10. For a stored event of kind \<open>k\<close> that passes the integrity check, the ledger
  stage attached and compared is the first one whose stage type is \<open>k\<close>, whatever
  stages of other kinds stand in front of it and whatever stands behind it: the event
  is verified on chain exactly when that stage carries its hash. Two events of one kind
  are both held against that same stage, so an event whose own ledger record comes later
  in the list is reported as not verified on chain. With no stage of the kind in the
  list nothing is attached.
\<close>

theorem first_stage_of_kind_decides:
  assumes "createBatchHash (Some (event_data s)) = Inr (event_hash s)"
    and "createBatchHash (Some (event_data s')) = Inr (event_hash s')"
    and "event_type s = Some (JsNumber (Num k 0))"
    and "event_type s' = Some (JsNumber (Num k 0))"
    and "0 \<le> k" and "k < 2 ^ 53"
    and "stageType l = JsBigInt k"
    and "\<forall>x \<in> set before. \<exists>j. stageType x = JsBigInt j \<and> j \<noteq> k"
  shows "(\<exists>d d'. processStage (before @ l # behind) s = Inr d \<and>
           processStage (before @ l # behind) s' = Inr d' \<and>
           data_integrity d \<and> data_integrity d' \<and>
           on_chain_data d = Some (safe_stage l) \<and> on_chain_data d' = Some (safe_stage l) \<and>
           on_chain_verified d = (metadataHash l = event_hash s) \<and>
           on_chain_verified d' = (metadataHash l = event_hash s') \<and>
           verified d = on_chain_verified d \<and> verified d' = on_chain_verified d') \<and>
         (\<exists>d. processStage before s = Inr d \<and> data_integrity d \<and>
           on_chain_data d = None \<and> \<not> on_chain_verified d \<and> \<not> verified d)"
proof -
  let ?P = "\<lambda>stage. strict_eq (parseInt (stageType stage)) (parseInt_column (Some (JsNumber (Num k 0))))"
  have hit: "?P l"
    using assms(5,6,7) by (rule same_kind_match)
  have miss: "\<forall>x \<in> set before. \<not> ?P x"
    using assms(5,6,8) other_kind_no_match by blast
  have found: "find ?P (before @ l # behind) = Some l"
    using hit miss by (rule find_first)
  have none: "find ?P before = None"
    using miss by (rule find_none)
  show ?thesis
    using found none assms(1,2,3,4)
    by (simp add: processStage_valid Let_def safe_stage_def)
qed

theorem first_stage_of_kind_decides_witness:
  "\<exists>d d'. processStage ([other_kind] @ first_mirror # [second_mirror]) first_event = Inr d \<and>
           processStage ([other_kind] @ first_mirror # [second_mirror]) second_event = Inr d' \<and>
           on_chain_data d = Some (safe_stage first_mirror) \<and>
           on_chain_data d' = Some (safe_stage first_mirror) \<and>
           on_chain_verified d \<and> \<not> on_chain_verified d' \<and>
           metadataHash other_kind = event_hash second_event \<and>
           metadataHash second_mirror = event_hash second_event"
proof -
  have "createBatchHash (Some (event_data first_event)) = Inr (event_hash first_event)"
    by (simp add: first_event_def createBatchHash_moisture)
  moreover have "createBatchHash (Some (event_data second_event)) = Inr (event_hash second_event)"
    by (simp add: second_event_def createBatchHash_empty)
  moreover have "event_type first_event = Some (JsNumber (Num 0 0))"
    "event_type second_event = Some (JsNumber (Num 0 0))"
    by (simp_all add: first_event_def second_event_def)
  moreover have "(0::int) \<le> 0" "(0::int) < 2 ^ 53"
    by simp_all
  moreover have "stageType first_mirror = JsBigInt 0"
    by (simp add: first_mirror_def)
  moreover have "\<forall>x \<in> set [other_kind]. \<exists>j. stageType x = JsBigInt j \<and> j \<noteq> 0"
    by (simp add: other_kind_def)
  ultimately obtain d d' where
    "processStage ([other_kind] @ first_mirror # [second_mirror]) first_event = Inr d"
    "processStage ([other_kind] @ first_mirror # [second_mirror]) second_event = Inr d'"
    "on_chain_data d = Some (safe_stage first_mirror)"
    "on_chain_data d' = Some (safe_stage first_mirror)"
    "on_chain_verified d = (metadataHash first_mirror = event_hash first_event)"
    "on_chain_verified d' = (metadataHash first_mirror = event_hash second_event)"
    using first_stage_of_kind_decides
      [of first_event second_event 0 first_mirror "[other_kind]" "[second_mirror]"]
    by blast
  moreover have "metadataHash first_mirror = event_hash first_event"
    "metadataHash first_mirror \<noteq> event_hash second_event"
    "metadataHash other_kind = event_hash second_event"
    "metadataHash second_mirror = event_hash second_event"
    by (simp_all add: first_mirror_def second_mirror_def other_kind_def first_event_def
        second_event_def)
  ultimately show ?thesis by auto
qed

text \<open>
  C7, as the claim states it: every contract integer in what \<open>getBatchSummary\<close> returns
  is a string. The stage type is not.
\<close>

theorem getBatchSummary_stage_type_counterexample:
  "getBatchSummary (Inr one_stage) =
     Inr \<lparr>sku = ''ASHWA-1'', stageCount = JsString (ascii ''1''),
          stages =
            [\<lparr>stageType = JsBigInt 1, timestamp = JsString (ascii ''1735689600''),
              metadataHash = ''d72b28067d442c4176c85c9940a52c2ee44893075bfb7a31f147e829783cbe4c''\<rparr>]\<rparr> \<and>
   map (\<lambda>l. is_string (stageType l)) (map map_stage (c_stages one_stage)) = [False]"
  by (simp add: getBatchSummary_def one_stage_def map_stage_def dec_int_def dec_nat.simps
      digit_char_def ascii_def)

text \<open>
  C7, amended. \<open>getBatchSummary\<close> turns the stage count and every stage's time stamp
  into their decimal strings and hands the stage type on as the contract gave it, a
  BigInt as a BigInt. \<open>GET /batch-stages\<close>, its consumer, therefore does not work with
  strings alone: it picks the ledger stage by \<open>parseInt\<close> of the stage type, and every
  ledger stage in its response is such a stage (a BigInt stage type has the number of the
  event's kind) with the stage type turned into its decimal string when it was a BigInt,
  so that the response holds no BigInt.
\<close>

theorem getBatchSummary_converts_count_and_timestamps:
  assumes "fid \<noteq> []"
  shows "(\<exists>s. getBatchSummary (Inr result) = Inr s \<and>
            sku s = c_sku result \<and>
            stageCount s = JsString (toString (c_stageCount result)) \<and>
            map timestamp (stages s) =
              map (\<lambda>stage. JsString (toString (c_timestamp stage))) (c_stages result) \<and>
            map stageType (stages s) = map c_stageType (c_stages result) \<and>
            map metadataHash (stages s) = map c_metadataHash (c_stages result)) \<and>
         toString (JsBigInt n) = ascii (dec_int n) \<and>
         bigint_to_string (JsBigInt n) = JsString (ascii (dec_int n)) \<and>
         (\<exists>vs sm. response_of (batch_stages fid (Inr rows) (Inr result)) =
             Some (Respond 200 (BatchStages fid fid vs sm)) \<and>
           length vs = length rows \<and>
           (\<forall>i < length rows. \<forall>l. on_chain_data (vs ! i) = Some l \<longrightarrow>
              (\<exists>stage \<in> set (c_stages result).
                 strict_eq (parseInt (c_stageType stage))
                   (parseInt_column (event_type (rows ! i))) \<and>
                 stageType l = bigint_to_string (c_stageType stage) \<and>
                 timestamp l = JsString (toString (c_timestamp stage)) \<and>
                 metadataHash l = c_metadataHash stage \<and>
                 \<not> is_bigint (stageType l) \<and> \<not> is_bigint (timestamp l) \<and>
                 (\<forall>j k. c_stageType stage = JsBigInt j \<and>
                    event_type (rows ! i) = Some (JsNumber (Num k 0)) \<and> 0 \<le> k \<and> k < 2 ^ 53 \<longrightarrow>
                    j = k))))"
proof -
  have summary: "\<exists>s. getBatchSummary (Inr result) = Inr s \<and>
            sku s = c_sku result \<and>
            stageCount s = JsString (toString (c_stageCount result)) \<and>
            map timestamp (stages s) =
              map (\<lambda>stage. JsString (toString (c_timestamp stage))) (c_stages result) \<and>
            map stageType (stages s) = map c_stageType (c_stages result) \<and>
            map metadataHash (stages s) = map c_metadataHash (c_stages result)"
    by (simp add: getBatchSummary_def map_stage_def comp_def)
  have chain: "onChainStages_of (Inr result) = map map_stage (c_stages result)"
    by (simp add: onChainStages_of_def getBatchSummary_def)
  from batch_stages_ok [OF assms, of "Inr result" rows] obtain vs where
    rel: "list_all2 (\<lambda>r d. processStage (onChainStages_of (Inr result)) r = Inr d) rows vs" and
    resp: "response_of (batch_stages fid (Inr rows) (Inr result)) =
      Some (Respond 200 (BatchStages fid fid vs
        \<lparr>total_stages = length vs, verified_stages = length (filter verified vs),
         verification_status = status_of vs\<rparr>))"
    by blast
  from rel have len: "length vs = length rows"
    by (simp add: list_all2_lengthD)
  have attached: "\<exists>stage \<in> set (c_stages result).
                 strict_eq (parseInt (c_stageType stage))
                   (parseInt_column (event_type (rows ! i))) \<and>
                 stageType l = bigint_to_string (c_stageType stage) \<and>
                 timestamp l = JsString (toString (c_timestamp stage)) \<and>
                 metadataHash l = c_metadataHash stage \<and>
                 \<not> is_bigint (stageType l) \<and> \<not> is_bigint (timestamp l) \<and>
                 (\<forall>j k. c_stageType stage = JsBigInt j \<and>
                    event_type (rows ! i) = Some (JsNumber (Num k 0)) \<and> 0 \<le> k \<and> k < 2 ^ 53 \<longrightarrow>
                    j = k)"
    if i: "i < length rows" and l: "on_chain_data (vs ! i) = Some l" for i l
  proof -
    from rel i have "processStage (map map_stage (c_stages result)) (rows ! i) = Inr (vs ! i)"
      unfolding chain by (rule list_all2_nthD)
    from processStage_attached [OF this l] obtain picked where
      picked: "picked \<in> set (map map_stage (c_stages result))"
        "strict_eq (parseInt (stageType picked)) (parseInt_column (event_type (rows ! i)))"
        "l = safe_stage picked"
      by blast
    then obtain stage where stage: "stage \<in> set (c_stages result)" "picked = map_stage stage"
      by auto
    have safe: "\<not> is_bigint (bigint_to_string v)" for v
      by (cases v) simp_all
    have kind: "j = k"
      if "c_stageType stage = JsBigInt j" "event_type (rows ! i) = Some (JsNumber (Num k 0))"
        "0 \<le> k" "k < 2 ^ 53" for j k
    proof (rule ccontr)
      assume "j \<noteq> k"
      with that(1,3,4) stage(2) have
        "\<not> strict_eq (parseInt (stageType picked)) (parseInt_column (Some (JsNumber (Num k 0))))"
        by (intro other_kind_no_match [where j = j]) (simp_all add: map_stage_def)
      with picked(2) that(2) show False by simp
    qed
    from picked(2,3) stage safe kind show ?thesis
      by (intro bexI [of _ stage]) (auto simp: map_stage_def safe_stage_def)
  qed
  have texts: "toString (JsBigInt n) = ascii (dec_int n)"
    "bigint_to_string (JsBigInt n) = JsString (ascii (dec_int n))"
    by simp_all
  from resp len attached have
    "\<exists>vs sm. response_of (batch_stages fid (Inr rows) (Inr result)) =
             Some (Respond 200 (BatchStages fid fid vs sm)) \<and>
           length vs = length rows \<and>
           (\<forall>i < length rows. \<forall>l. on_chain_data (vs ! i) = Some l \<longrightarrow>
              (\<exists>stage \<in> set (c_stages result).
                 strict_eq (parseInt (c_stageType stage))
                   (parseInt_column (event_type (rows ! i))) \<and>
                 stageType l = bigint_to_string (c_stageType stage) \<and>
                 timestamp l = JsString (toString (c_timestamp stage)) \<and>
                 metadataHash l = c_metadataHash stage \<and>
                 \<not> is_bigint (stageType l) \<and> \<not> is_bigint (timestamp l) \<and>
                 (\<forall>j k. c_stageType stage = JsBigInt j \<and>
                    event_type (rows ! i) = Some (JsNumber (Num k 0)) \<and> 0 \<le> k \<and> k < 2 ^ 53 \<longrightarrow>
                    j = k)))"
    by blast
  with summary texts show ?thesis
    by (intro conjI)
qed

theorem getBatchSummary_converts_count_and_timestamps_witness:
  "\<exists>vs sm. response_of (batch_stages ''42'' (Inr [quality_event]) (Inr one_stage)) =
       Some (Respond 200 (BatchStages ''42'' ''42'' vs sm)) \<and>
     map on_chain_data vs =
       [Some \<lparr>stageType = JsString (ascii ''1''), timestamp = JsString (ascii ''1735689600''),
              metadataHash = ''d72b28067d442c4176c85c9940a52c2ee44893075bfb7a31f147e829783cbe4c''\<rparr>] \<and>
     map verified vs = [True]"
proof -
  from getBatchSummary_converts_count_and_timestamps [of "''42''" one_stage 1 "[quality_event]"]
  obtain vs sm where
    resp: "response_of (batch_stages ''42'' (Inr [quality_event]) (Inr one_stage)) =
       Some (Respond 200 (BatchStages ''42'' ''42'' vs sm))" and
    len: "length vs = length [quality_event]"
    by auto
  have run: "batch_stages ''42'' (Inr [quality_event]) (Inr one_stage) =
      [Respond 200 (BatchStages ''42'' ''42''
         [\<lparr>stage_type = Some (JsNumber (Num 1 0)), metadata = moisture,
           stage_timestamp = ''2025-01-01T00:00:00Z'', data_integrity = True,
           on_chain_verified = True, verified = True,
           on_chain_data =
             Some \<lparr>stageType = JsString (ascii ''1''), timestamp = JsString (ascii ''1735689600''),
                   metadataHash = ''d72b28067d442c4176c85c9940a52c2ee44893075bfb7a31f147e829783cbe4c''\<rparr>\<rparr>]
         \<lparr>total_stages = 1, verified_stages = 1, verification_status = FULLY_VERIFIED\<rparr>)]"
    by (simp add: batch_stages_def getBatchSummary_def one_stage_def map_stage_def
        quality_event_def processStage_def createBatchHash_moisture kind_of_column kind_of_stage
        strict_eq_def safe_stage_def status_of_def res_json_def Let_def dec_int_def
        dec_nat.simps digit_char_def ascii_def)
  with resp show ?thesis
    by (auto simp: response_of_def)
qed

lemma or_empty_object_moisture: "or_empty_object (Some moisture) = moisture"
  by (simp add: or_empty_object_def moisture_def)

lemma or_empty_object_truthy:
  "or_empty_object (Some m) = (if truthy m then m else JObj [])"
  by (simp add: or_empty_object_def)

lemma unknown_stage_type_rejected:
  assumes "map_of event_stages (to_property_key (req_stage_type req)) = None"
    and "to_property_key (req_stage_type req) \<noteq> ''__proto__''"
    and "to_property_key (req_stage_type req) \<notin> set Object_prototype_methods"
  shows "add_stage_event req inserted mirror = [Respond 400 (ErrorText ''Invalid stage type'')]"
  using assms by (simp add: add_stage_event_def event_stages_get_def res_json_def)

lemma missing_stage_type_rejected:
  "req_stage_type req = None \<Longrightarrow>
   add_stage_event req inserted mirror = [Respond 400 (ErrorText ''Invalid stage type'')]"
  by (rule unknown_stage_type_rejected)
     (simp_all add: to_property_key_def event_stages_def Object_prototype_methods_def)

text \<open>
  C4. A stage type outside the three names is to be answered with 400 and no insert. The
  name of a method that \<open>event_stages\<close> inherits passes the check: for
  \<open>constructor\<close> the row is handed to the store, with a function as its event type,
  and the store's success is answered with 201.
\<close>

theorem inherited_name_passes_validation:
  "map_of event_stages ''constructor'' = None \<and>
   (\<exists>rest. add_stage_event record_constructor inserted mirror =
      StoreInsert
        \<lparr>new_batch_id = ''42'', new_event_type = PFunction, new_event_data = moisture,
         new_event_hash = ''d72b28067d442c4176c85c9940a52c2ee44893075bfb7a31f147e829783cbe4c''\<rparr> #
      rest) \<and>
   add_stage_event record_constructor (Inr [row]) (Inl e) =
     [StoreInsert
        \<lparr>new_batch_id = ''42'', new_event_type = PFunction, new_event_data = moisture,
         new_event_hash = ''d72b28067d442c4176c85c9940a52c2ee44893075bfb7a31f147e829783cbe4c''\<rparr>,
      Respond 201
        (StageRecorded ''Stage event recorded successfully'' (Some row)
           ''d72b28067d442c4176c85c9940a52c2ee44893075bfb7a31f147e829783cbe4c''),
      LedgerAddStage ''42'' PFunction
        ''d72b28067d442c4176c85c9940a52c2ee44893075bfb7a31f147e829783cbe4c'',
      ConsoleError e, Unhandled ERR_HTTP_HEADERS_SENT]"
  by (simp add: add_stage_event_def record_constructor_def event_stages_get_def
      event_stages_def Object_prototype_methods_def to_property_key_def field_value_def
      truthy_string_def createBatchHash_moisture or_empty_object_moisture first_row_def
      res_json_def Let_def)

theorem inherited_name_passes_validation_witness:
  "response_of
     (add_stage_event record_constructor
        (Inr [\<lparr>batch_id = ''42'', event_type = None, event_data = moisture,
               event_hash = ''d72b28067d442c4176c85c9940a52c2ee44893075bfb7a31f147e829783cbe4c'',
               created_at = ''2025-01-01T00:00:00Z''\<rparr>])
        (Inl (AdapterError ''invalid argument''))) =
   Some (Respond 201
        (StageRecorded ''Stage event recorded successfully''
           (Some \<lparr>batch_id = ''42'', event_type = None, event_data = moisture,
               event_hash = ''d72b28067d442c4176c85c9940a52c2ee44893075bfb7a31f147e829783cbe4c'',
               created_at = ''2025-01-01T00:00:00Z''\<rparr>)
           ''d72b28067d442c4176c85c9940a52c2ee44893075bfb7a31f147e829783cbe4c''))"
  using inherited_name_passes_validation
    [where row = "\<lparr>batch_id = ''42'', event_type = None, event_data = moisture,
               event_hash = ''d72b28067d442c4176c85c9940a52c2ee44893075bfb7a31f147e829783cbe4c'',
               created_at = ''2025-01-01T00:00:00Z''\<rparr>" and e = "AdapterError ''invalid argument''"
      and inserted = "Inl (AdapterError ''invalid argument'')" and mirror = "Inl (AdapterError ''invalid argument'')"]
  by (simp add: response_of_def)

text \<open>
  C5. Once the insert has succeeded, \<open>POST /add-stage-event\<close> has handed the row to
  the store, then sent the 201 with the first returned row and the hash, and only then
  called the ledger. When that call fails the error is logged and the second response
  cannot be sent: the client's response is the 201 whatever the ledger answers, and
  nothing after the insert touches the store.
\<close>

theorem ledger_mirror_follows_response:
  assumes "req_stage_type req = Some kind" and "event_stages_get kind = stage"
    and "stage \<noteq> PUndefined"
    and "req_formatted_batch_id req = Some batchId" and "batchId \<noteq> []"
    and "createBatchHash (req_metadata req) = Inr batchHash"
  shows "add_stage_event req (Inr data) mirror =
           [StoreInsert
              \<lparr>new_batch_id = batchId, new_event_type = stage,
               new_event_data = or_empty_object (req_metadata req),
               new_event_hash = batchHash\<rparr>,
            Respond 201
              (StageRecorded ''Stage event recorded successfully'' (first_row data) batchHash),
            LedgerAddStage batchId stage batchHash] @
           (case mirror of
              Inl e \<Rightarrow> [ConsoleError e, Unhandled ERR_HTTP_HEADERS_SENT]
            | Inr tx \<Rightarrow> [ConsoleLog (txHash tx) (stageIndex tx)]) \<and>
         response_of (add_stage_event req (Inr data) mirror) =
           Some (Respond 201
              (StageRecorded ''Stage event recorded successfully'' (first_row data) batchHash))"
  using assms
  by (simp add: add_stage_event_def to_property_key_def field_value_def truthy_string_def
      res_json_def response_of_def split: sum.splits)

theorem ledger_mirror_follows_response_witness:
  "add_stage_event record_moisture (Inr [first_event]) (Inl (AdapterError ''timeout'')) =
     [StoreInsert
        \<lparr>new_batch_id = ''42'', new_event_type = PNumber 0, new_event_data = moisture,
         new_event_hash = ''d72b28067d442c4176c85c9940a52c2ee44893075bfb7a31f147e829783cbe4c''\<rparr>,
      Respond 201
        (StageRecorded ''Stage event recorded successfully'' (Some first_event)
           ''d72b28067d442c4176c85c9940a52c2ee44893075bfb7a31f147e829783cbe4c''),
      LedgerAddStage ''42'' (PNumber 0)
        ''d72b28067d442c4176c85c9940a52c2ee44893075bfb7a31f147e829783cbe4c'',
      ConsoleError (AdapterError ''timeout''), Unhandled ERR_HTTP_HEADERS_SENT] \<and>
   response_of (add_stage_event record_moisture (Inr [first_event]) (Inl (AdapterError ''timeout''))) =
     response_of (add_stage_event record_moisture (Inr [first_event])
        (Inr \<lparr>txHash = ''0xabc'', stageIndex = Some ''0''\<rparr>))"
  using ledger_mirror_follows_response
      [of record_moisture "''CollectionEvent''" "PNumber 0" "''42''"
        "''d72b28067d442c4176c85c9940a52c2ee44893075bfb7a31f147e829783cbe4c''"
        "[first_event]" "Inl (AdapterError ''timeout'')"]
    ledger_mirror_follows_response
      [of record_moisture "''CollectionEvent''" "PNumber 0" "''42''"
        "''d72b28067d442c4176c85c9940a52c2ee44893075bfb7a31f147e829783cbe4c''"
        "[first_event]" "Inr \<lparr>txHash = ''0xabc'', stageIndex = Some ''0''\<rparr>"]
  by (simp add: record_moisture_def event_stages_get_def event_stages_def
      createBatchHash_moisture or_empty_object_moisture first_row_def response_of_def)

text \<open>
  C8. A request without the metadata field is to be answered with 201 and stored with
  the empty object. The hash is taken of the field itself, before the default is put
  in: the request ends in a 500 and nothing is handed to the store.
\<close>

theorem omitted_metadata_fails:
  "add_stage_event record_bare inserted mirror =
     [ConsoleError ERR_INVALID_ARG_TYPE, Respond 500 (ErrorMessage ERR_INVALID_ARG_TYPE)] \<and>
   or_empty_object (req_metadata record_bare) = JObj []"
  by (simp add: add_stage_event_def record_bare_def event_stages_get_def event_stages_def
      to_property_key_def field_value_def truthy_string_def createBatchHash_def
      or_empty_object_def res_json_def)

theorem omitted_metadata_fails_witness:
  "response_of (add_stage_event record_bare (Inr [first_event])
       (Inr \<lparr>txHash = ''0xabc'', stageIndex = Some ''0''\<rparr>)) =
     Some (Respond 500 (ErrorMessage ERR_INVALID_ARG_TYPE))"
  using omitted_metadata_fails
    [of "Inr [first_event]" "Inr \<lparr>txHash = ''0xabc'', stageIndex = Some ''0''\<rparr>"]
  by (simp add: response_of_def)

text \<open>
  Metadata that is falsy is stored as the empty object while the hash is taken of the
  value itself: read back, such an event fails the integrity check.
\<close>

lemma falsy_metadata_fails_integrity:
  "or_empty_object (Some JNull) = JObj [] \<and>
   createBatchHash (Some JNull) =
     Inr ''74234e98afe7498fb5daf1f36ac2d78acc339464f950703b8c019892f982b90b'' \<and>
   processStage onChainStages
     \<lparr>batch_id = b, event_type = ty, event_data = JObj [],
      event_hash = ''74234e98afe7498fb5daf1f36ac2d78acc339464f950703b8c019892f982b90b'',
      created_at = t\<rparr> =
   Inr \<lparr>stage_type = ty, metadata = JObj [], stage_timestamp = t, data_integrity = False,
        on_chain_verified = False, verified = False, on_chain_data = None\<rparr>"
proof -
  have "processStage onChainStages
     \<lparr>batch_id = b, event_type = ty, event_data = JObj [],
      event_hash = ''74234e98afe7498fb5daf1f36ac2d78acc339464f950703b8c019892f982b90b'',
      created_at = t\<rparr> =
   Inr \<lparr>stage_type = ty, metadata = JObj [], stage_timestamp = t, data_integrity = False,
        on_chain_verified = False, verified = False, on_chain_data = None\<rparr>"
    using processStage_invalid
      [of "\<lparr>batch_id = b, event_type = ty, event_data = JObj [],
      event_hash = ''74234e98afe7498fb5daf1f36ac2d78acc339464f950703b8c019892f982b90b'',
      created_at = t\<rparr>" onChainStages]
    by (simp add: createBatchHash_empty)
  then show ?thesis
    using createBatchHash_null by (simp add: or_empty_object_def)
qed

text \<open>
  C6. \<open>createBatchHash\<close> of a JSON value is the SHA-256 digest of the UTF-8 bytes of the
  value's \<open>JSON.stringify\<close> text, sixty-four lower-case hexadecimal digits. Recording
  a stage puts that digest into the inserted row and into the 201, and that row, read
  back with the metadata it was written with, passes the integrity check: the second
  hashing gives the digest of the first. For the object with \<open>moisture\<close> 12 the
  digest is the one printed here; \<open>null\<close>, the empty object and three more objects,
  with a number in exponent form, a fraction, and characters beyond ASCII, have theirs.
\<close>

theorem createBatchHash_is_sha256_of_json:
  "createBatchHash (Some m) = Inr (sha256_hex (utf8 (JSON_stringify m))) \<and>
   length (sha256_hex (utf8 (JSON_stringify m))) = 64 \<and>
   set (sha256_hex (utf8 (JSON_stringify m))) \<subseteq> set ''0123456789abcdef'' \<and>
   (req_stage_type req = Some kind \<and> event_stages_get kind = PNumber n \<and>
    req_formatted_batch_id req = Some batchId \<and> batchId \<noteq> [] \<and> req_metadata req = Some m \<longrightarrow>
      (\<exists>row rest. add_stage_event req (Inr data) mirror =
         StoreInsert row #
         Respond 201
           (StageRecorded ''Stage event recorded successfully'' (first_row data)
              (sha256_hex (utf8 (JSON_stringify m)))) #
         rest \<and>
         new_batch_id row = batchId \<and> new_event_type row = PNumber n \<and>
         new_event_data row = (if truthy m then m else JObj []) \<and>
         new_event_hash row = sha256_hex (utf8 (JSON_stringify m)) \<and>
         (truthy m \<longrightarrow>
            (\<exists>d. processStage onChainStages
                 \<lparr>batch_id = new_batch_id row, event_type = ty,
                  event_data = new_event_data row, event_hash = new_event_hash row,
                  created_at = t\<rparr> = Inr d \<and>
               data_integrity d)))) \<and>
   utf8 (JSON_stringify moisture) = ascii moisture_text \<and>
   createBatchHash (Some moisture) =
     Inr ''d72b28067d442c4176c85c9940a52c2ee44893075bfb7a31f147e829783cbe4c'' \<and>
   utf8 (JSON_stringify large_count) = ascii large_count_text \<and>
   createBatchHash (Some large_count) =
     Inr ''39ba0f2c526806ef0ada9656786e01bc6659bfed2f933c35ebff09a37558e451'' \<and>
   utf8 (JSON_stringify half_moisture) = ascii half_moisture_text \<and>
   createBatchHash (Some half_moisture) =
     Inr ''07f98c2d7d5dbcc0e14cddd3ab2825ef0a389d560046a22d07649342c9e18a11'' \<and>
   utf8 (JSON_stringify herb_note) = herb_note_bytes \<and>
   createBatchHash (Some herb_note) =
     Inr ''d89ed76a37c54e5baa258cd03bef0541d6551a03c6333427953e441271ed2ff3'' \<and>
   createBatchHash (Some JNull) =
     Inr ''74234e98afe7498fb5daf1f36ac2d78acc339464f950703b8c019892f982b90b'' \<and>
   createBatchHash (Some (JObj [])) =
     Inr ''44136fa355b3678a1146ad16f7e8649e94fb4fc21fe77e8310c060f61caaff8a''"
proof -
  let ?H = "sha256_hex (utf8 (JSON_stringify m))"
  have hash: "createBatchHash (Some m) = Inr ?H"
    by (simp add: createBatchHash_def)
  have written: "\<exists>row rest. add_stage_event req (Inr data) mirror =
         StoreInsert row #
         Respond 201 (StageRecorded ''Stage event recorded successfully'' (first_row data) ?H) #
         rest \<and>
         new_batch_id row = batchId \<and> new_event_type row = PNumber n \<and>
         new_event_data row = (if truthy m then m else JObj []) \<and>
         new_event_hash row = ?H \<and>
         (truthy m \<longrightarrow>
            (\<exists>d. processStage onChainStages
                 \<lparr>batch_id = new_batch_id row, event_type = ty,
                  event_data = new_event_data row, event_hash = new_event_hash row,
                  created_at = t\<rparr> = Inr d \<and>
               data_integrity d))"
    if req: "req_stage_type req = Some kind" "event_stages_get kind = PNumber n"
      "req_formatted_batch_id req = Some batchId" "batchId \<noteq> []" "req_metadata req = Some m"
  proof -
    let ?row = "\<lparr>new_batch_id = batchId, new_event_type = PNumber n,
            new_event_data = (if truthy m then m else JObj []), new_event_hash = ?H\<rparr>"
    have run: "\<exists>rest. add_stage_event req (Inr data) mirror =
         StoreInsert ?row #
         Respond 201 (StageRecorded ''Stage event recorded successfully'' (first_row data) ?H) #
         rest"
      using req
      by (simp add: add_stage_event_def to_property_key_def field_value_def truthy_string_def
          res_json_def hash or_empty_object_truthy Let_def)
    have checked: "\<exists>d. processStage onChainStages
                 \<lparr>batch_id = new_batch_id ?row, event_type = ty,
                  event_data = new_event_data ?row, event_hash = new_event_hash ?row,
                  created_at = t\<rparr> = Inr d \<and>
               data_integrity d"
      if "truthy m"
      using that by (simp add: processStage_def hash Let_def)
    from run checked show ?thesis
      by (intro exI [of _ ?row]) auto
  qed
  have large: "createBatchHash (Some large_count) =
     Inr ''39ba0f2c526806ef0ada9656786e01bc6659bfed2f933c35ebff09a37558e451''"
    by (simp only: createBatchHash_def option.case text_large_count sha256_large_count)
  have half: "createBatchHash (Some half_moisture) =
     Inr ''07f98c2d7d5dbcc0e14cddd3ab2825ef0a389d560046a22d07649342c9e18a11''"
    by (simp only: createBatchHash_def option.case text_half_moisture sha256_half_moisture)
  have herb: "createBatchHash (Some herb_note) =
     Inr ''d89ed76a37c54e5baa258cd03bef0541d6551a03c6333427953e441271ed2ff3''"
    by (simp only: createBatchHash_def option.case text_herb_note sha256_herb_note)
  from hash sha256_hex_shape [of "utf8 (JSON_stringify m)"] written
    text_moisture createBatchHash_moisture text_large_count large text_half_moisture half
    text_herb_note herb createBatchHash_null createBatchHash_empty
  show ?thesis
    by (intro conjI impI) blast+
qed

theorem createBatchHash_is_sha256_of_json_witness:
  "createBatchHash (Some half_moisture) =
     Inr ''07f98c2d7d5dbcc0e14cddd3ab2825ef0a389d560046a22d07649342c9e18a11'' \<and>
   (\<exists>rest. add_stage_event record_moisture (Inr [first_event]) (Inl (AdapterError ''timeout'')) =
      StoreInsert
        \<lparr>new_batch_id = ''42'', new_event_type = PNumber 0, new_event_data = moisture,
         new_event_hash = ''d72b28067d442c4176c85c9940a52c2ee44893075bfb7a31f147e829783cbe4c''\<rparr> #
      Respond 201
        (StageRecorded ''Stage event recorded successfully'' (Some first_event)
           ''d72b28067d442c4176c85c9940a52c2ee44893075bfb7a31f147e829783cbe4c'') #
      rest) \<and>
   (\<exists>d. processStage [] first_event = Inr d \<and> data_integrity d)"
proof -
  have m: "truthy moisture"
    by (simp add: moisture_def)
  have h: "sha256_hex (utf8 (JSON_stringify moisture)) =
      ''d72b28067d442c4176c85c9940a52c2ee44893075bfb7a31f147e829783cbe4c''"
    by (simp only: text_moisture sha256_moisture)
  have req: "req_stage_type record_moisture = Some ''CollectionEvent''"
    "event_stages_get ''CollectionEvent'' = PNumber 0"
    "req_formatted_batch_id record_moisture = Some ''42''" "''42'' \<noteq> []"
    "req_metadata record_moisture = Some moisture"
    by (simp_all add: record_moisture_def event_stages_get_def event_stages_def)
  from createBatchHash_is_sha256_of_json
    [where m = moisture and req = record_moisture and kind = "''CollectionEvent''" and n = 0
      and batchId = "''42''" and data = "[first_event]" and mirror = "Inl (AdapterError ''timeout'')"
      and onChainStages = "[]" and ty = "Some (JsNumber (Num 0 0))"
      and t = "''2025-01-01T00:00:00Z''"]
    m h req
  obtain row rest where
    run: "add_stage_event record_moisture (Inr [first_event]) (Inl (AdapterError ''timeout'')) =
      StoreInsert row #
      Respond 201
        (StageRecorded ''Stage event recorded successfully'' (first_row [first_event])
           ''d72b28067d442c4176c85c9940a52c2ee44893075bfb7a31f147e829783cbe4c'') # rest" and
    row: "new_batch_id row = ''42''" "new_event_type row = PNumber 0"
      "new_event_data row = moisture"
      "new_event_hash row = ''d72b28067d442c4176c85c9940a52c2ee44893075bfb7a31f147e829783cbe4c''" and
    check: "\<exists>d. processStage []
                 \<lparr>batch_id = new_batch_id row, event_type = Some (JsNumber (Num 0 0)),
                  event_data = new_event_data row, event_hash = new_event_hash row,
                  created_at = ''2025-01-01T00:00:00Z''\<rparr> = Inr d \<and>
               data_integrity d" and
    half: "createBatchHash (Some half_moisture) =
     Inr ''07f98c2d7d5dbcc0e14cddd3ab2825ef0a389d560046a22d07649342c9e18a11''"
    by auto
  from row have "row = \<lparr>new_batch_id = ''42'', new_event_type = PNumber 0, new_event_data = moisture,
         new_event_hash = ''d72b28067d442c4176c85c9940a52c2ee44893075bfb7a31f147e829783cbe4c''\<rparr>"
    by (cases row) simp
  with run check half row show ?thesis
    by (simp add: first_row_def first_event_def)
qed

text \<open>
  C9. \<open>POST /analyse-pdf\<close> answers 400 when the URL is missing or empty; with a URL
  it answers 500 with the fixed message when the download, the text extraction, the
  model call, the parsing of the reply or the reading of the rating (of \<open>null\<close>) fails, and
  otherwise 200 with the \<open>rating\<close> property of the parsed reply alone.
\<close>

theorem analyse_pdf_responses:
  "(\<not> truthy_string pdfUrl \<longrightarrow>
      analyse_pdf JSON_parse pdfUrl download pdf_parse generate =
        [Respond 400 (ErrorText ''PDF URL is required.'')]) \<and>
   (truthy_string pdfUrl \<longrightarrow>
      (download = Inl e \<or>
       download = Inr buffer \<and> pdf_parse buffer = Inl e \<or>
       download = Inr buffer \<and> pdf_parse buffer = Inr pdfText \<and> generate pdfText = Inl e \<or>
       download = Inr buffer \<and> pdf_parse buffer = Inr pdfText \<and> generate pdfText = Inr reply \<and>
         JSON_parse reply = Inl e \<or>
       download = Inr buffer \<and> pdf_parse buffer = Inr pdfText \<and> generate pdfText = Inr reply \<and>
         JSON_parse reply = Inr jsonResponse \<and> get_rating jsonResponse = Inl e \<longrightarrow>
       analyse_pdf JSON_parse pdfUrl download pdf_parse generate =
         [ConsoleError e, Respond 500 (ErrorText ''Failed to analyze PDF.'')]) \<and>
      (download = Inr buffer \<and> pdf_parse buffer = Inr pdfText \<and> generate pdfText = Inr reply \<and>
         JSON_parse reply = Inr jsonResponse \<and> get_rating jsonResponse = Inr rating \<longrightarrow>
       analyse_pdf JSON_parse pdfUrl download pdf_parse generate =
         [Respond 200 (Rating rating)])) \<and>
   get_rating (JObj kvs) = Inr (map_of kvs (ascii ''rating'')) \<and>
   get_rating JNull = Inl TypeError"
  by (auto simp: analyse_pdf_def res_json_def Let_def)

theorem analyse_pdf_responses_witness:
  "analyse_pdf parse_good_reply None (Inr [37, 80, 68, 70]) (\<lambda>b. Inr ''moisture 12'') (\<lambda>t. Inr good_reply) =
     [Respond 400 (ErrorText ''PDF URL is required.'')] \<and>
   analyse_pdf parse_good_reply (Some ''https://reports/1.pdf'') (Inr [37, 80, 68, 70])
       (\<lambda>b. Inr ''moisture 12'') (\<lambda>t. Inr ''not json'') =
     [ConsoleError SyntaxError, Respond 500 (ErrorText ''Failed to analyze PDF.'')] \<and>
   analyse_pdf parse_good_reply (Some ''https://reports/1.pdf'') (Inr [37, 80, 68, 70])
       (\<lambda>b. Inr ''moisture 12'') (\<lambda>t. Inr good_reply) =
     [Respond 200 (Rating (Some (JStr (ascii ''good''))))]"
proof -
  have a: "\<not> truthy_string None" and b: "truthy_string (Some ''https://reports/1.pdf'')"
    by (simp_all add: truthy_string_def)
  have bad: "parse_good_reply ''not json'' = Inl SyntaxError"
    by (simp add: parse_good_reply_def good_reply_def)
  have good: "parse_good_reply good_reply = Inr (JObj [(ascii ''rating'', JStr (ascii ''good''))])"
    by (simp add: parse_good_reply_def)
  from a analyse_pdf_responses
      [where pdfUrl = None and JSON_parse = parse_good_reply and download = "Inr [37, 80, 68, 70]"
        and pdf_parse = "\<lambda>b. Inr ''moisture 12''" and generate = "\<lambda>t. Inr good_reply"]
  have one: "analyse_pdf parse_good_reply None (Inr [37, 80, 68, 70]) (\<lambda>b. Inr ''moisture 12'')
      (\<lambda>t. Inr good_reply) = [Respond 400 (ErrorText ''PDF URL is required.'')]"
    by simp
  from b bad analyse_pdf_responses
      [where pdfUrl = "Some ''https://reports/1.pdf''" and JSON_parse = parse_good_reply
        and download = "Inr [37, 80, 68, 70]" and pdf_parse = "\<lambda>b. Inr ''moisture 12''"
        and generate = "\<lambda>t. Inr ''not json''" and e = SyntaxError
        and buffer = "[37, 80, 68, 70]" and pdfText = "''moisture 12''" and reply = "''not json''"]
  have two: "analyse_pdf parse_good_reply (Some ''https://reports/1.pdf'') (Inr [37, 80, 68, 70])
       (\<lambda>b. Inr ''moisture 12'') (\<lambda>t. Inr ''not json'') =
     [ConsoleError SyntaxError, Respond 500 (ErrorText ''Failed to analyze PDF.'')]"
    by simp
  from b good analyse_pdf_responses
      [where pdfUrl = "Some ''https://reports/1.pdf''" and JSON_parse = parse_good_reply
        and download = "Inr [37, 80, 68, 70]" and pdf_parse = "\<lambda>b. Inr ''moisture 12''"
        and generate = "\<lambda>t. Inr good_reply" and buffer = "[37, 80, 68, 70]"
        and pdfText = "''moisture 12''" and reply = good_reply
        and jsonResponse = "JObj [(ascii ''rating'', JStr (ascii ''good''))]"
        and rating = "Some (JStr (ascii ''good''))"]
  have three: "analyse_pdf parse_good_reply (Some ''https://reports/1.pdf'') (Inr [37, 80, 68, 70])
       (\<lambda>b. Inr ''moisture 12'') (\<lambda>t. Inr good_reply) =
     [Respond 200 (Rating (Some (JStr (ascii ''good''))))]"
    by simp
  from one two three show ?thesis by simp
qed

end
